theory Spec2Isabelle
  imports Main "HOL-Library.Word" "HOL-Library.Signed_Division"
begin

unbundle bit_operations_syntax

section \<open>The Go runtime and standard library, as far as the filter uses them\<close>

text \<open>
  The filter is one Go file, \<^verbatim>\<open>filter-dnsblscore.go\<close>. Its integers are Go's \<^verbatim>\<open>int8\<close>
  (the score of a session), \<^verbatim>\<open>int64\<close> and \<^verbatim>\<open>int\<close>; \<^verbatim>\<open>int\<close> is modelled at its
  64-bit width (amd64, arm64). Arithmetic on them wraps around, conversions between
  them truncate or sign-extend, and comparisons read them as two's complement
  (\<open>sint\<close>).
\<close>

type_synonym byte = "8 word"
type_synonym int8 = "8 word"
type_synonym go_int = "64 word"

text \<open>
  A handler of the filter ends in one of three ways: it returns, it calls
  \<^verbatim>\<open>log.Fatal\<close>/\<^verbatim>\<open>log.Fatalf\<close> (a diagnostic, then exit status 1), or the Go runtime
  panics (index out of range, integer division by zero). \<open>Fatal\<close> carries the
  diagnostic, in places shortened.
\<close>

datatype error = Fatal string | Panic

subsection \<open>Package strings\<close>

text \<open>\<^verbatim>\<open>strings.Split(s, sep)\<close> for a separator of one byte: never empty, one field more
  than there are separators.\<close>

fun Split :: "string \<Rightarrow> char \<Rightarrow> string list" where
  "Split [] sep = [[]]"
| "Split (c # cs) sep =
     (if c = sep then [] # Split cs sep
      else (c # hd (Split cs sep)) # tl (Split cs sep))"

text \<open>\<^verbatim>\<open>strings.Join(elems, sep)\<close>.\<close>

fun Join :: "string list \<Rightarrow> string \<Rightarrow> string" where
  "Join [] sep = []"
| "Join [x] sep = x"
| "Join (x # y # ys) sep = x @ sep @ Join (y # ys) sep"

text \<open>\<^verbatim>\<open>strings.Contains(s, substr)\<close> for a substring of one byte.\<close>

definition Contains :: "string \<Rightarrow> char \<Rightarrow> bool" where
  "Contains s c = (c \<in> set s)"

subsection \<open>Package strconv\<close>

text \<open>The byte tests \<^verbatim>\<open>'0' <= c && c <= '9'\<close> and the digit value \<^verbatim>\<open>c - '0'\<close>.\<close>

definition isDigit :: "char \<Rightarrow> bool" where
  "isDigit c = (48 \<le> (of_char c :: nat) \<and> (of_char c :: nat) \<le> 57)"

definition digitVal :: "char \<Rightarrow> nat" where
  "digitVal c = of_char c - 48"

text \<open>The digit byte \<^verbatim>\<open>d + '0'\<close>.\<close>

definition digitChar :: "nat \<Rightarrow> char" where
  "digitChar d = char_of (d + 48)"

datatype numError = NoError | ErrSyntax | ErrRange

text \<open>
  The digit loop of \<^verbatim>\<open>strconv.ParseUint(s, 10, bitSize)\<close>: \<open>maxVal = 2 ^ bitSize - 1\<close>,
  \<open>cutoff = maxUint64 div 10 + 1\<close>. A byte that is no digit is a syntax error with value
  0; a value beyond \<open>maxVal\<close> returns \<open>maxVal\<close> with a range error at once, before the
  rest of the string is read. The accumulator is a \<^verbatim>\<open>uint64\<close>; the test
  \<^verbatim>\<open>n1 < n || n1 > maxVal\<close> catches its wrap-around, which on \<open>nat\<close> is \<open>n1 > maxVal\<close>.
\<close>

fun parseUintLoop :: "nat \<Rightarrow> nat \<Rightarrow> string \<Rightarrow> nat \<times> numError" where
  "parseUintLoop maxVal n [] = (n, NoError)"
| "parseUintLoop maxVal n (c # cs) =
     (if \<not> isDigit c then (0, ErrSyntax)
      else if n \<ge> 18446744073709551615 div 10 + 1 then (maxVal, ErrRange)
      else let n1 = n * 10 + digitVal c
           in if n1 > maxVal then (maxVal, ErrRange)
              else parseUintLoop maxVal n1 cs)"

definition ParseUint :: "string \<Rightarrow> nat \<Rightarrow> nat \<times> numError" where
  "ParseUint s bitSize =
     (if s = [] then (0, ErrSyntax) else parseUintLoop (2 ^ bitSize - 1) 0 s)"

text \<open>
  \<^verbatim>\<open>strconv.ParseInt(s, 10, bitSize)\<close> for \<open>bitSize > 0\<close>: an optional sign, then
  \<^verbatim>\<open>ParseUint\<close>; a range error clamps to the nearest value of the signed type. The
  result is an \<^verbatim>\<open>int64\<close> between \<open>- 2 ^ (bitSize - 1)\<close> and \<open>2 ^ (bitSize - 1) - 1\<close>,
  given here as the integer it denotes.
\<close>

definition ParseInt :: "string \<Rightarrow> nat \<Rightarrow> int \<times> numError" where
  "ParseInt s bitSize =
     (if s = [] then (0, ErrSyntax)
      else let neg = (hd s = CHR ''-'');
               s1 = (if hd s = CHR ''+'' \<or> hd s = CHR ''-'' then tl s else s);
               (un, err) = ParseUint s1 bitSize;
               cutoff = 2 ^ (bitSize - 1)
           in if err = ErrSyntax then (0, ErrSyntax)
              else if \<not> neg \<and> un \<ge> cutoff then (int cutoff - 1, ErrRange)
              else if neg \<and> un > cutoff then (- int cutoff, ErrRange)
              else (if neg then - int un else int un, NoError))"

text \<open>\<^verbatim>\<open>strconv.Atoi(s)\<close> is \<^verbatim>\<open>ParseInt(s, 10, 0)\<close> at the width of \<^verbatim>\<open>int\<close>; its fast path
  for short strings computes the same value.\<close>

definition Atoi :: "string \<Rightarrow> int \<times> numError" where
  "Atoi s = ParseInt s 64"

text \<open>Decimal formatting, as \<^verbatim>\<open>%d\<close> of \<^verbatim>\<open>fmt.Sprintf\<close> does it for an integer.\<close>

fun utoa :: "nat \<Rightarrow> string" where
  "utoa n = (if n < 10 then [digitChar n] else utoa (n div 10) @ [digitChar (n mod 10)])"

declare utoa.simps [simp del]

definition itoa :: "int \<Rightarrow> string" where
  "itoa i = (if i < 0 then CHR ''-'' # utoa (nat (- i)) else utoa (nat i))"

subsection \<open>Package net\<close>

text \<open>
  An IPv4 address, as \<^verbatim>\<open>net.ParseIP\<close> returns it. Go keeps it in the 16-byte
  IPv4-in-IPv6 form; \<^verbatim>\<open>String\<close> and \<^verbatim>\<open>Mask\<close> both reduce it to its four bytes first, and
  so does the model. The nil \<^verbatim>\<open>net.IP\<close> is \<open>None\<close>.
\<close>

datatype IP = IPv4 byte byte byte byte

text \<open>
  \<^verbatim>\<open>parseIPv4Fields\<close> of package netip: the loop over the bytes of the string, with the
  value and the number of digits of the current field, the fields read so far
  (\<^verbatim>\<open>pos\<close> is their number) and the byte before the current one (\<open>None\<close> at index 0).
  No leading zero, no value above 255, no empty field, exactly four fields.
\<close>

fun parseIPv4Fields :: "nat \<Rightarrow> nat \<Rightarrow> byte list \<Rightarrow> char option \<Rightarrow> string \<Rightarrow> byte list option" where
  "parseIPv4Fields val digLen fields prev [] =
     (if length fields < 3 then None else Some (fields @ [of_nat val]))"
| "parseIPv4Fields val digLen fields prev (c # cs) =
     (if isDigit c then
        (if digLen = 1 \<and> val = 0 then None
         else let val1 = val * 10 + digitVal c
              in if val1 > 255 then None
                 else parseIPv4Fields val1 (digLen + 1) fields (Some c) cs)
      else if c = CHR ''.'' then
        (if prev = None \<or> cs = [] \<or> prev = Some (CHR ''.'') then None
         else if length fields = 3 then None
         else parseIPv4Fields 0 0 (fields @ [of_nat val]) (Some c) cs)
      else None)"

definition parseIPv4 :: "string \<Rightarrow> IP option" where
  "parseIPv4 s =
     (case parseIPv4Fields 0 0 [] None s of
        Some [a, b, c, d] \<Rightarrow> Some (IPv4 a b c d)
      | _ \<Rightarrow> None)"

text \<open>
  \<^verbatim>\<open>netip.ParseAddr\<close>, which \<^verbatim>\<open>net.ParseIP\<close> calls, looks for the first of \<^verbatim>\<open>.\<close>, \<^verbatim>\<open>:\<close> and
  \<^verbatim>\<open>%\<close>: a dot sends the whole string to the IPv4 parser, a colon to the IPv6 parser, a
  percent sign or none of the three is an error. The filter only ever passes the text
  before the first colon of the address field (lemma \<open>Split_hd_no_sep\<close> below), so
  the IPv6 parser is never reached and is not modelled: that branch is \<open>None\<close> here.
\<close>

fun ParseAddr :: "string \<Rightarrow> string \<Rightarrow> IP option" where
  "ParseAddr s [] = None"
| "ParseAddr s (c # cs) =
     (if c = CHR ''.'' then parseIPv4 s
      else if c = CHR '':'' then None
      else if c = CHR ''%'' then None
      else ParseAddr s cs)"

definition ParseIP :: "string \<Rightarrow> IP option" where
  "ParseIP s = ParseAddr s s"

text \<open>\<^verbatim>\<open>ubtoa\<close>: a byte in decimal, one to three digits.\<close>

definition ubtoa :: "byte \<Rightarrow> string" where
  "ubtoa v =
     (if unat v < 10 then [digitChar (unat v)]
      else if unat v < 100 then [digitChar (unat v div 10), digitChar (unat v mod 10)]
      else [digitChar (unat v div 100), digitChar (unat v div 10 mod 10), digitChar (unat v mod 10)])"

text \<open>\<^verbatim>\<open>IP.String\<close>: dotted decimal for an IPv4 address, \<^verbatim>\<open><nil>\<close> for the nil address.\<close>

fun String :: "IP option \<Rightarrow> string" where
  "String None = ''<nil>''"
| "String (Some (IPv4 a b c d)) =
     ubtoa a @ ''.'' @ ubtoa b @ ''.'' @ ubtoa c @ ''.'' @ ubtoa d"

text \<open>
  \<^verbatim>\<open>net.CIDRMask(ones, bits)\<close>: nil unless \<open>bits\<close> is 32 or 128 and \<open>0 \<le> ones \<le> bits\<close>;
  otherwise \<open>bits div 8\<close> bytes, the first \<open>ones\<close> bits set.
\<close>

fun cidrBytes :: "nat \<Rightarrow> nat \<Rightarrow> byte list" where
  "cidrBytes 0 n = []"
| "cidrBytes (Suc l) n =
     (if n \<ge> 8 then 0xFF # cidrBytes l (n - 8)
      else NOT (drop_bit n 0xFF) # cidrBytes l 0)"

definition CIDRMask :: "int \<Rightarrow> int \<Rightarrow> byte list option" where
  "CIDRMask ones bits =
     (if bits \<noteq> 32 \<and> bits \<noteq> 128 then None
      else if ones < 0 \<or> ones > bits then None
      else Some (cidrBytes (nat (bits div 8)) (nat ones)))"

text \<open>
  \<^verbatim>\<open>IP.Mask(mask)\<close> on an IPv4 address and a mask that is nil or has four bytes, the
  only masks \<^verbatim>\<open>CIDRMask(ones, 32)\<close> returns: four bytes are applied bytewise, the nil
  mask has another length than the address and gives the nil address. Masks of other
  lengths do not arise in the filter and are given the nil address here.
\<close>

fun Mask :: "IP \<Rightarrow> byte list option \<Rightarrow> IP option" where
  "Mask (IPv4 a b c d) (Some [m0, m1, m2, m3]) =
     Some (IPv4 (a AND m0) (b AND m1) (c AND m2) (d AND m3))"
| "Mask ip m = None"

subsection \<open>Package time\<close>

text \<open>
  A \<^verbatim>\<open>time.Duration\<close> is an \<^verbatim>\<open>int64\<close> count of nanoseconds, and \<^verbatim>\<open>time.Millisecond\<close> is the
  duration \<open>1000000\<close>. A product of durations wraps around like any \<^verbatim>\<open>int64\<close> product.
\<close>

type_synonym Duration = "64 word"

definition Millisecond :: Duration where
  "Millisecond = 1000000"

section \<open>The filter\<close>

subsection \<open>Global state\<close>

text \<open>The \<^verbatim>\<open>session\<close> struct. The field \<^verbatim>\<open>id\<close> is never assigned.\<close>

record session =
  id :: string
  score :: int8
  delay :: go_int
  first_line :: bool

text \<open>
  The flags and the positional arguments (\<^verbatim>\<open>domains\<close>), set by \<^verbatim>\<open>main\<close> before the event
  loop, and the two allowlist maps that \<^verbatim>\<open>loadAllowlists\<close> fills. \<^verbatim>\<open>allowlist\<close> is a
  \<^verbatim>\<open>map[string]bool\<close> holding only \<^verbatim>\<open>true\<close>, hence a set of keys. \<^verbatim>\<open>allowlistMasks\<close> is a
  \<^verbatim>\<open>map[int]bool\<close> that \<^verbatim>\<open>linkConnect\<close> ranges over; Go leaves the order of that
  iteration open, and the list stands for the order of one run, whichever it is.
\<close>

record config =
  domains :: "string list"
  blockAbove :: go_int
  blockPhase :: string
  junkAbove :: go_int
  slowFactor :: go_int
  scoreHeader :: bool
  testMode :: bool
  allowlist :: "string set"
  allowlistMasks :: "int list"

text \<open>The variables that change while events are processed: the session table and
  the protocol version of the line being handled.\<close>

record state =
  sessions :: "string \<rightharpoonup> session"
  version :: string

text \<open>
  A goroutine that a \<^verbatim>\<open>go\<close> statement starts: the call
  \<^verbatim>\<open>waitThenAction(sessionId, token, delay, format)\<close>, its arguments evaluated by the
  handler at the \<^verbatim>\<open>go\<close> statement. The filter has no other \<^verbatim>\<open>go\<close> statement in its
  handlers.
\<close>

datatype call = WaitThenAction string string go_int string

text \<open>
  What a goroutine does to the outside, in order: a DNS lookup of a name
  (\<^verbatim>\<open>net.LookupIP\<close>), a pause of a positive number of nanoseconds (\<^verbatim>\<open>time.Sleep\<close>), a
  line written to standard output, the start of another goroutine (\<^verbatim>\<open>go\<close>). In test
  mode a line is printed by \<^verbatim>\<open>fmt.Println\<close>; outside test mode it is sent on the
  unbuffered \<^verbatim>\<open>outputChannel\<close>, from which the goroutine that \<^verbatim>\<open>main\<close> starts before its
  loop prints line after line. \<open>Output\<close> stands for both: a line counts as written
  when it is printed or handed to the channel. The diagnostics written to standard
  error are left out.
\<close>

datatype effect = LookupIP string | Sleep Duration | Output string | Go call

type_synonym result = "error + state \<times> effect list"

text \<open>The resolver: whether \<^verbatim>\<open>net.LookupIP(name)\<close> returns without error and with at
  least one address. It is a parameter of the model.\<close>

type_synonym resolver = "string \<Rightarrow> bool"

subsection \<open>Session table\<close>

definition getSession :: "state \<Rightarrow> string \<Rightarrow> error + session" where
  "getSession st sessionId =
     (case sessions st sessionId of
        None \<Rightarrow> Inl (Fatal (''invalid session ID: '' @ sessionId))
      | Some s \<Rightarrow> Inr s)"

text \<open>A session is a pointer into the table: assigning to a field of \<^verbatim>\<open>s\<close> changes the
  entry of the table.\<close>

definition putSession :: "state \<Rightarrow> string \<Rightarrow> session \<Rightarrow> state" where
  "putSession st sessionId s = st\<lparr>sessions := (sessions st)(sessionId \<mapsto> s)\<rparr>"

subsection \<open>Reporters\<close>

text \<open>The loop over \<^verbatim>\<open>allowlistMasks\<close> in \<^verbatim>\<open>linkConnect\<close>: whether it finds a key of
  \<^verbatim>\<open>allowlist\<close>.\<close>

fun allowlisted :: "string set \<Rightarrow> IP \<Rightarrow> int list \<Rightarrow> bool" where
  "allowlisted al addr [] = False"
| "allowlisted al addr (maskOnes # rest) =
     (let mask = CIDRMask maskOnes 32;
          maskedAddr = String (Mask addr mask);
          query = maskedAddr @ ''/'' @ itoa maskOnes
      in if query \<in> al then True else allowlisted al addr rest)"

text \<open>The name looked up for one blocklist domain: the four atoms of the address in
  reverse, then the domain.\<close>

definition lookupName :: "string list \<Rightarrow> string \<Rightarrow> string" where
  "lookupName atoms domain =
     atoms ! 3 @ ''.'' @ atoms ! 2 @ ''.'' @ atoms ! 1 @ ''.'' @ atoms ! 0 @ ''.'' @ domain"

text \<open>The loop over \<^verbatim>\<open>domains\<close>: the \<^verbatim>\<open>int64\<close> score counts the domains that
  resolve. It cannot overflow, a slice having fewer than \<open>2 ^ 63\<close> elements.\<close>

fun lookupScore :: "resolver \<Rightarrow> string list \<Rightarrow> string list \<Rightarrow> int" where
  "lookupScore resolve atoms [] = 0"
| "lookupScore resolve atoms (domain # rest) =
     (if resolve (lookupName atoms domain) then 1 else 0) + lookupScore resolve atoms rest"

text \<open>The session that \<^verbatim>\<open>linkConnect\<close> creates: \<^verbatim>\<open>&session{}\<close> with \<^verbatim>\<open>first_line\<close> set
  and the score unknown.\<close>

definition newSession :: session where
  "newSession = \<lparr>id = [], score = - 1, delay = 0, first_line = True\<rparr>"

text \<open>
  \<^verbatim>\<open>linkConnect\<close>. The new session is stored under the id without a look at what the
  table holds there. The conversion \<^verbatim>\<open>int8(score)\<close> keeps the low eight bits.
  \<^verbatim>\<open>atoms\<close> is indexed up to 3; the model panics where Go would.
\<close>

definition linkConnect :: "config \<Rightarrow> resolver \<Rightarrow> string \<Rightarrow> string \<Rightarrow> string list \<Rightarrow> state \<Rightarrow> result" where
  "linkConnect cfg resolve phase sessionId params st =
     (if length params \<noteq> 4 then Inl (Fatal ''invalid input'')
      else
        let s = newSession;
            st1 = putSession st sessionId s;
            addr = ParseIP (Split (params ! 2) (CHR '':'') ! 0)
        in case addr of
             None \<Rightarrow> Inr (st1, [])
           | Some a \<Rightarrow>
               if Contains (String addr) (CHR '':'') then Inr (st1, [])
               else if allowlisted (allowlist cfg) a (allowlistMasks cfg)
               then Inr (putSession st sessionId (s\<lparr>score := 0\<rparr>), [])
               else
                 let atoms = Split (String addr) (CHR ''.'')
                 in if testMode cfg then
                      (if length atoms < 4 then Inl Panic
                       else if atoms ! 3 = ''255'' then Inr (st1, [])
                       else Inr (putSession st sessionId
                                   (s\<lparr>score := word_of_int (fst (ParseInt (atoms ! 3) 8))\<rparr>), []))
                    else
                      (if domains cfg \<noteq> [] \<and> length atoms < 4 then Inl Panic
                       else Inr (putSession st sessionId
                                   (s\<lparr>score := word_of_int (lookupScore resolve atoms (domains cfg))\<rparr>),
                                 map (\<lambda>domain. LookupIP (lookupName atoms domain)) (domains cfg))))"

definition linkDisconnect :: "string \<Rightarrow> string \<Rightarrow> string list \<Rightarrow> state \<Rightarrow> result" where
  "linkDisconnect phase sessionId params st =
     (if length params \<noteq> 0 then Inl (Fatal ''invalid input'')
      else Inr (st\<lparr>sessions := (sessions st)(sessionId := None)\<rparr>, []))"

subsection \<open>Responses\<close>

text \<open>
  \<^verbatim>\<open>produceOutput\<close>, with the text that \<^verbatim>\<open>fmt.Sprintf(format, a...)\<close> yields as its last
  argument. \<^verbatim>\<open>tokens[1]\<close> is read whatever the version is, and the errors of both
  \<^verbatim>\<open>Atoi\<close> calls are dropped. \<open>outputLine\<close> is the line built from the tokens of the
  version.
\<close>

definition outputLine :: "string list \<Rightarrow> string \<Rightarrow> string \<Rightarrow> string \<Rightarrow> string \<Rightarrow> string" where
  "outputLine tokens msgType sessionId token text =
     (let hiver = fst (Atoi (tokens ! 0));
          lover = fst (Atoi (tokens ! 1));
          out = (if hiver = 0 \<and> lover < 5
                 then msgType @ ''|'' @ token @ ''|'' @ sessionId
                 else msgType @ ''|'' @ sessionId @ ''|'' @ token)
      in out @ ''|'' @ text)"

definition produceOutput :: "string \<Rightarrow> string \<Rightarrow> string \<Rightarrow> string \<Rightarrow> string \<Rightarrow> error + string" where
  "produceOutput ver msgType sessionId token text =
     (let tokens = Split ver (CHR ''.'')
      in if length tokens < 2 then Inl Panic
         else Inr (outputLine tokens msgType sessionId token text))"

text \<open>
  \<^verbatim>\<open>time.Sleep(d)\<close> pauses the goroutine that calls it for the duration \<open>d\<close>; it returns
  at once for a duration that is zero or negative.
\<close>

definition timeSleep :: "Duration \<Rightarrow> effect list" where
  "timeSleep d = (if 0 < sint d then [Sleep d] else [])"

text \<open>
  The first statement of \<^verbatim>\<open>waitThenAction\<close>: for a positive delay,
  \<^verbatim>\<open>time.Sleep(time.Duration(delay) * time.Millisecond)\<close>. The conversion of an \<^verbatim>\<open>int\<close> of
  64 bits to a \<^verbatim>\<open>Duration\<close> keeps its value; the product wraps around at 64 bits.
\<close>

definition sleepEffects :: "go_int \<Rightarrow> effect list" where
  "sleepEffects dly = (if 0 < sint dly then timeSleep (dly * Millisecond) else [])"

text \<open>
  \<^verbatim>\<open>waitThenAction\<close>, run in the state \<open>st\<close>: it sleeps, then produces the line from the
  value that the variable \<^verbatim>\<open>version\<close> has when \<^verbatim>\<open>produceOutput\<close> reads it. The pause does
  not change the state, so the model takes \<open>st\<close> to be the state at that reading. An
  error result carries no effects: a sleep before a panic is not recorded.
\<close>

definition waitThenAction :: "state \<Rightarrow> string \<Rightarrow> string \<Rightarrow> go_int \<Rightarrow> string \<Rightarrow> result" where
  "waitThenAction st sessionId token dly text =
     (case produceOutput (version st) ''filter-result'' sessionId token text of
        Inl e \<Rightarrow> Inl e
      | Inr out \<Rightarrow> Inr (st, sleepEffects dly @ [Output out]))"

text \<open>
  \<^verbatim>\<open>delayedJunk\<close>, \<^verbatim>\<open>delayedProceed\<close> and \<^verbatim>\<open>delayedDisconnect\<close> differ in the verdict
  text only. \<^verbatim>\<open>params[0]\<close> panics on an event without parameters. In test mode
  \<^verbatim>\<open>waitThenAction\<close> is called and the handler returns after the line is printed.
  Outside test mode the handler starts \<^verbatim>\<open>waitThenAction\<close> as a goroutine, with the delay
  that the session has at that moment, and returns at once.
\<close>

definition delayed :: "config \<Rightarrow> string \<Rightarrow> string \<Rightarrow> string list \<Rightarrow> state \<Rightarrow> result" where
  "delayed cfg verdict sessionId params st =
     (case getSession st sessionId of
        Inl e \<Rightarrow> Inl e
      | Inr s \<Rightarrow>
          if params = [] then Inl Panic
          else if testMode cfg
          then waitThenAction st sessionId (params ! 0) (delay s) verdict
          else Inr (st, [Go (WaitThenAction sessionId (params ! 0) (delay s) verdict)]))"

definition delayedJunk :: "config \<Rightarrow> string \<Rightarrow> string list \<Rightarrow> state \<Rightarrow> result" where
  "delayedJunk cfg = delayed cfg ''junk''"

definition delayedProceed :: "config \<Rightarrow> string \<Rightarrow> string list \<Rightarrow> state \<Rightarrow> result" where
  "delayedProceed cfg = delayed cfg ''proceed''"

definition delayedDisconnect :: "config \<Rightarrow> string \<Rightarrow> string list \<Rightarrow> state \<Rightarrow> result" where
  "delayedDisconnect cfg =
     delayed cfg ''disconnect|550 your IP reputation is too low for this MX''"

text \<open>
  A goroutine started by a handler, run to its end in the state \<open>st\<close>. It shares the
  variable \<^verbatim>\<open>version\<close> with \<^verbatim>\<open>main\<close>, which assigns to it at every line it reads; the
  goroutine reads it once, in \<^verbatim>\<open>produceOutput\<close>, after its pause.
\<close>

fun resume :: "state \<Rightarrow> call \<Rightarrow> result" where
  "resume st (WaitThenAction sessionId token dly text) =
     waitThenAction st sessionId token dly text"

subsection \<open>Filters\<close>

text \<open>The conversion \<^verbatim>\<open>int8(x)\<close> of an \<^verbatim>\<open>int\<close>: the low eight bits.\<close>

definition to_int8 :: "go_int \<Rightarrow> int8" where
  "to_int8 x = ucast x"

text \<open>The conversion \<^verbatim>\<open>int(x)\<close> of an \<^verbatim>\<open>int8\<close>: sign extension.\<close>

definition to_int :: "int8 \<Rightarrow> go_int" where
  "to_int x = scast x"

text \<open>Go's \<^verbatim>\<open>/\<close> on \<^verbatim>\<open>int\<close>, for a divisor that is not zero: the quotient truncated
  towards zero.\<close>

definition go_div :: "go_int \<Rightarrow> go_int \<Rightarrow> go_int" where
  "go_div a b = word_of_int (sint a sdiv sint b)"

text \<open>The condition of the block branch, shared by \<^verbatim>\<open>filterConnect\<close> (with
  \<^verbatim>\<open>"connect"\<close> for the phase) and \<^verbatim>\<open>delayedAnswer\<close>.\<close>

definition blocks :: "config \<Rightarrow> session \<Rightarrow> string \<Rightarrow> bool" where
  "blocks cfg s phase =
     (score s \<noteq> - 1 \<and> 0 \<le> sint (to_int8 (blockAbove cfg))
      \<and> sint (score s) > sint (to_int8 (blockAbove cfg)) \<and> blockPhase cfg = phase)"

definition junks :: "config \<Rightarrow> session \<Rightarrow> bool" where
  "junks cfg s =
     (score s \<noteq> - 1 \<and> 0 \<le> sint (to_int8 (junkAbove cfg))
      \<and> sint (score s) > sint (to_int8 (junkAbove cfg)))"

text \<open>The delay that \<^verbatim>\<open>filterConnect\<close> stores in the session, for a list of domains that
  is not empty: the product wraps around at 64 bits before it is divided.\<close>

definition slowDelay :: "config \<Rightarrow> session \<Rightarrow> go_int" where
  "slowDelay cfg s =
     (if 0 < sint (slowFactor cfg) \<and> 0 < sint (score s)
      then go_div (slowFactor cfg * to_int (score s)) (of_nat (length (domains cfg)))
      else 0)"

text \<open>\<^verbatim>\<open>filterConnect\<close>. The division panics for an empty list of domains, which \<^verbatim>\<open>main\<close>
  refuses at start-up.\<close>

definition filterConnect :: "config \<Rightarrow> string \<Rightarrow> string \<Rightarrow> string list \<Rightarrow> state \<Rightarrow> result" where
  "filterConnect cfg phase sessionId params st =
     (case getSession st sessionId of
        Inl e \<Rightarrow> Inl e
      | Inr s \<Rightarrow>
          if 0 < sint (slowFactor cfg) \<and> 0 < sint (score s) \<and> domains cfg = [] then Inl Panic
          else
            let s1 = s\<lparr>delay := slowDelay cfg s\<rparr>;
                st1 = putSession st sessionId s1
            in if blocks cfg s1 ''connect'' then delayedDisconnect cfg sessionId params st1
               else if junks cfg s1 then delayedJunk cfg sessionId params st1
               else delayedProceed cfg sessionId params st1)"

text \<open>\<^verbatim>\<open>dataline\<close>: the header line, if any, is produced before \<^verbatim>\<open>first_line\<close> is
  cleared and before the line itself.\<close>

definition dataline :: "config \<Rightarrow> string \<Rightarrow> string \<Rightarrow> string list \<Rightarrow> state \<Rightarrow> result" where
  "dataline cfg phase sessionId params st =
     (case getSession st sessionId of
        Inl e \<Rightarrow> Inl e
      | Inr s \<Rightarrow>
          if params = [] then Inl Panic
          else
            let token = params ! 0;
                line = Join (tl params) ''|'';
                st1 = (if first_line s then putSession st sessionId (s\<lparr>first_line := False\<rparr>)
                       else st)
            in if first_line s \<and> score s \<noteq> - 1 \<and> scoreHeader cfg then
                 (case produceOutput (version st) ''filter-dataline'' sessionId token
                         (''X-DNSBL-Score: '' @ itoa (sint (score s))) of
                    Inl e \<Rightarrow> Inl e
                  | Inr header \<Rightarrow>
                      (case produceOutput (version st) ''filter-dataline'' sessionId token line of
                         Inl e \<Rightarrow> Inl e
                       | Inr out \<Rightarrow> Inr (st1, [Output header, Output out])))
               else
                 (case produceOutput (version st) ''filter-dataline'' sessionId token line of
                    Inl e \<Rightarrow> Inl e
                  | Inr out \<Rightarrow> Inr (st1, [Output out])))"

definition delayedAnswer :: "config \<Rightarrow> string \<Rightarrow> string \<Rightarrow> string list \<Rightarrow> state \<Rightarrow> result" where
  "delayedAnswer cfg phase sessionId params st =
     (case getSession st sessionId of
        Inl e \<Rightarrow> Inl e
      | Inr s \<Rightarrow>
          if blocks cfg s phase then delayedDisconnect cfg sessionId params st
          else delayedProceed cfg sessionId params st)"

subsection \<open>Dispatch\<close>

type_synonym handler = "string \<Rightarrow> string \<Rightarrow> string list \<Rightarrow> state \<Rightarrow> result"

text \<open>The two tables from phase names to handlers.\<close>

definition reporters :: "config \<Rightarrow> resolver \<Rightarrow> string \<Rightarrow> handler option" where
  "reporters cfg resolve name =
     (if name = ''link-connect'' then Some (linkConnect cfg resolve)
      else if name = ''link-disconnect'' then Some linkDisconnect
      else None)"

definition filters :: "config \<Rightarrow> string \<Rightarrow> handler option" where
  "filters cfg name =
     (if name = ''connect'' then Some (filterConnect cfg)
      else if name \<in> set [''helo'', ''ehlo'', ''starttls'', ''auth'', ''mail-from'', ''rcpt-to'',
                           ''data'', ''commit'', ''quit'']
      then Some (delayedAnswer cfg)
      else if name = ''data-line'' then Some (dataline cfg)
      else None)"

text \<open>\<^verbatim>\<open>trigger\<close>, called with at least six atoms.\<close>

definition trigger :: "(string \<Rightarrow> handler option) \<Rightarrow> string list \<Rightarrow> state \<Rightarrow> result" where
  "trigger currentSlice atoms st =
     (case currentSlice (atoms ! 4) of
        Some handler \<Rightarrow> handler (atoms ! 4) (atoms ! 5) (drop 6 atoms) st
      | None \<Rightarrow> Inl (Fatal (''invalid phase: '' @ atoms ! 4)))"

text \<open>One turn of the loop of \<^verbatim>\<open>main\<close>, for a line that the scanner has read.\<close>

definition handleLine :: "config \<Rightarrow> resolver \<Rightarrow> string \<Rightarrow> state \<Rightarrow> result" where
  "handleLine cfg resolve line st =
     (let atoms = Split line (CHR ''|'')
      in if length atoms < 6 then Inl (Fatal (''missing atoms: '' @ line))
         else
           let st1 = st\<lparr>version := atoms ! 1\<rparr>
           in if atoms ! 0 = ''report'' then trigger (reporters cfg resolve) atoms st1
              else if atoms ! 0 = ''filter'' then trigger (filters cfg) atoms st1
              else Inl (Fatal (''invalid stream: '' @ atoms ! 0)))"

text \<open>
  The loop of \<^verbatim>\<open>main\<close> over the lines of standard input, taken alone: the effects of the
  lines handled, in order, and how the loop ends, with the error of the first line that
  ends the process or with the state at the end of the input. The goroutines that the
  handlers start appear as \<open>Go\<close> effects and are not run here; they write to neither
  the session table nor \<^verbatim>\<open>version\<close>, so the loop goes this way whatever they do, unless
  one of them panics first. In test mode no goroutine is started, and this is the
  whole process.
\<close>

fun run :: "config \<Rightarrow> resolver \<Rightarrow> string list \<Rightarrow> state \<Rightarrow> effect list \<times> (error + state)" where
  "run cfg resolve [] st = ([], Inr st)"
| "run cfg resolve (line # rest) st =
     (case handleLine cfg resolve line st of
        Inl e \<Rightarrow> ([], Inl e)
      | Inr (st1, effs) \<Rightarrow>
          (case run cfg resolve rest st1 of (effs2, r) \<Rightarrow> (effs @ effs2, r)))"

text \<open>
  The process with its goroutines. Go does not fix the order in which \<^verbatim>\<open>main\<close> and the
  goroutines it has started take their turns, so the order is a parameter: at each
  turn either \<^verbatim>\<open>main\<close> reads and handles the next line of standard input
  (\<open>NextLine\<close>), or the goroutine at some position among those started and not yet
  finished ends its pause, produces its line and finishes (\<open>Finish\<close>; a position
  that holds no goroutine is passed over). The goroutines read only \<^verbatim>\<open>version\<close>, which
  \<^verbatim>\<open>main\<close> assigns once per line, so turns of whole lines tell apart all that a
  goroutine can read.

  The process ends with \<^verbatim>\<open>os.Exit(0)\<close> when \<^verbatim>\<open>main\<close> finds the input at its end, whatever
  goroutines are left (\<open>Exit0\<close>), or with the error of a handler or the panic of a
  goroutine (\<open>Aborted\<close>); \<open>Running\<close> is a process whose turns have been followed
  only so far.
\<close>

datatype turn = NextLine | Finish nat

datatype ending = Exit0 | Aborted error | Running

fun started :: "effect list \<Rightarrow> call list" where
  "started [] = []"
| "started (Go c # effs) = c # started effs"
| "started (e # effs) = started effs"

fun process :: "config \<Rightarrow> resolver \<Rightarrow> turn list \<Rightarrow> string list \<Rightarrow> state \<Rightarrow> call list
                  \<Rightarrow> effect list \<times> ending" where
  "process cfg resolve [] lines st gs = ([], Running)"
| "process cfg resolve (NextLine # turns) [] st gs = ([], Exit0)"
| "process cfg resolve (NextLine # turns) (line # rest) st gs =
     (case handleLine cfg resolve line st of
        Inl e \<Rightarrow> ([], Aborted e)
      | Inr (st1, effs) \<Rightarrow>
          (case process cfg resolve turns rest st1 (gs @ started effs) of
             (effs2, r) \<Rightarrow> (effs @ effs2, r)))"
| "process cfg resolve (Finish i # turns) lines st gs =
     (if length gs \<le> i then process cfg resolve turns lines st gs
      else
        case resume st (gs ! i) of
          Inl e \<Rightarrow> ([], Aborted e)
        | Inr (st1, effs) \<Rightarrow>
            (case process cfg resolve turns lines st (take i gs @ drop (Suc i) gs) of
               (effs2, r) \<Rightarrow> (effs @ effs2, r)))"

text \<open>\<^verbatim>\<open>validatePhase\<close>, which \<^verbatim>\<open>main\<close> calls on the block phase before the loop.\<close>

definition validatePhase :: "string \<Rightarrow> error + unit" where
  "validatePhase phase =
     (if phase \<in> set [''connect'', ''helo'', ''ehlo'', ''starttls'', ''auth'', ''mail-from'',
                       ''rcpt-to'', ''quit'']
      then Inr () else Inl (Fatal (''invalid block phase: '' @ phase)))"

text \<open>
  \<^verbatim>\<open>loadAllowlists\<close>, from the point where a line of the file has been reduced to an
  IPv4 entry \<^verbatim>\<open>ip/ones\<close> (the comment and the blanks removed, \<^verbatim>\<open>/32\<close> appended to a
  bare address) and its address has been read. \<^verbatim>\<open>net.ParseCIDR\<close> refuses a length
  outside \<open>0 .. 32\<close>, which is fatal; otherwise the subnet it returns has the address
  masked to \<open>ones\<close> bits, \<^verbatim>\<open>Mask.Size\<close> gives \<open>ones\<close> back, and \<^verbatim>\<open>String\<close> prints the masked
  address, a slash and \<open>ones\<close>. Reading the file and splitting its lines are not
  modelled.
\<close>

definition addSubnet :: "IP \<times> int \<Rightarrow> config \<Rightarrow> error + config" where
  "addSubnet entry cfg =
     (let maskOnes = snd entry
      in if maskOnes < 0 \<or> 32 < maskOnes then Inl (Fatal ''invalid subnet'')
         else
           let subnetStr = String (Mask (fst entry) (CIDRMask maskOnes 32)) @ ''/'' @ itoa maskOnes
           in Inr (cfg\<lparr>allowlistMasks := (if maskOnes \<in> set (allowlistMasks cfg)
                                            then allowlistMasks cfg
                                            else allowlistMasks cfg @ [maskOnes]),
                        allowlist := insert subnetStr (allowlist cfg)\<rparr>))"

fun loadAllowlists :: "(IP \<times> int) list \<Rightarrow> config \<Rightarrow> error + config" where
  "loadAllowlists [] cfg = Inr cfg"
| "loadAllowlists (entry # rest) cfg =
     (case addSubnet entry cfg of
        Inl e \<Rightarrow> Inl e
      | Inr cfg1 \<Rightarrow> loadAllowlists rest cfg1)"

text \<open>
  What \<^verbatim>\<open>main\<close> checks between \<^verbatim>\<open>flag.Parse\<close> and its loop, for the flags and domains as
  parsed (a flag declared with \<^verbatim>\<open>flag.Int\<close> takes every value of \<^verbatim>\<open>int\<close>) and the
  entries of the allowlist file: there is a domain, the block phase is valid, the
  allowlist loads. Nothing else is checked.
\<close>

definition startup :: "(IP \<times> int) list \<Rightarrow> config \<Rightarrow> error + config" where
  "startup entries cfg =
     (if domains cfg = [] then Inl (Fatal ''missing blocklist domains'')
      else
        case validatePhase (blockPhase cfg) of
          Inl e \<Rightarrow> Inl e
        | Inr u \<Rightarrow> loadAllowlists entries cfg)"

subsection \<open>Start-up values\<close>

text \<open>The configuration that \<^verbatim>\<open>main\<close> builds when no flag is given, for the domains on
  the command line, and the state in which the loop starts.\<close>

definition defaultConfig :: "string list \<Rightarrow> config" where
  "defaultConfig ds =
     \<lparr>domains = ds, blockAbove = - 1, blockPhase = ''connect'', junkAbove = - 1,
      slowFactor = - 1, scoreHeader = False, testMode = False, allowlist = {},
      allowlistMasks = []\<rparr>"

definition initialState :: state where
  "initialState = \<lparr>sessions = Map.empty, version = []\<rparr>"

text \<open>A resolver that finds no name on any list.\<close>

definition noHits :: resolver where
  "noHits name = False"

text \<open>A resolver that finds every name on every list.\<close>

definition allHits :: resolver where
  "allHits name = True"

subsection \<open>Reading a result\<close>

text \<open>The session a handler leaves under an id, and the effects of a handler; both are
  \<open>None\<close> for a handler that ends the process.\<close>

definition sessionOf :: "result \<Rightarrow> string \<Rightarrow> session option" where
  "sessionOf r sessionId = (case r of Inl e \<Rightarrow> None | Inr (st, effs) \<Rightarrow> sessions st sessionId)"

definition effectsOf :: "result \<Rightarrow> effect list option" where
  "effectsOf r = (case r of Inl e \<Rightarrow> None | Inr (st, effs) \<Rightarrow> Some effs)"

text \<open>The score of that session, as the integer it denotes.\<close>

definition scoreOf :: "result \<Rightarrow> string \<Rightarrow> int option" where
  "scoreOf r sessionId = map_option (\<lambda>s. sint (score s)) (sessionOf r sessionId)"

text \<open>The delay of that session, as the integer it denotes.\<close>

definition delayOf :: "result \<Rightarrow> string \<Rightarrow> int option" where
  "delayOf r sessionId = map_option (\<lambda>s. sint (delay s)) (sessionOf r sessionId)"

text \<open>The integer between \<open>-128\<close> and \<open>127\<close> that is congruent to \<open>k\<close> modulo \<open>2 ^ 8\<close>.\<close>

definition wrap8 :: "int \<Rightarrow> int" where
  "wrap8 k = (k + 128) mod 256 - 128"

section \<open>Facts about the library functions\<close>

lemma digit_chars:
  "char_of (48::nat) = CHR ''0''" "char_of (49::nat) = CHR ''1''" "char_of (50::nat) = CHR ''2''"
  "char_of (51::nat) = CHR ''3''" "char_of (52::nat) = CHR ''4''" "char_of (53::nat) = CHR ''5''"
  "char_of (54::nat) = CHR ''6''" "char_of (55::nat) = CHR ''7''" "char_of (56::nat) = CHR ''8''"
  "char_of (57::nat) = CHR ''9''"
  by (simp_all add: char_of_eq_iff)

lemma Split_not_Nil [simp]: "Split s sep \<noteq> []"
  by (induction s) auto

lemma Split_hd_no_sep: "sep \<notin> set (hd (Split s sep))"
  by (induction s) auto

lemma Split_no_sep: "sep \<notin> set s \<Longrightarrow> Split s sep = [s]"
  by (induction s) auto

lemma Split_append_sep: "sep \<notin> set a \<Longrightarrow> Split (a @ sep # b) sep = a # Split b sep"
  by (induction a) auto

lemma length_Split: "length (Split s sep) = Suc (length (filter (\<lambda>c. c = sep) s))"
proof (induction s)
  case Nil
  then show ?case by simp
next
  case (Cons c cs)
  have "length (tl (Split cs sep)) = length (Split cs sep) - 1" by simp
  moreover have "length (Split cs sep) \<noteq> 0" by simp
  ultimately show ?case using Cons by simp
qed

lemma Split_Cons:
  "Split (c # cs) sep =
     (if c = sep then [] # Split cs sep
      else (case Split cs sep of x # xs \<Rightarrow> (c # x) # xs))"
  by (cases "Split cs sep") simp_all

lemma length_Split_less2: "length (Split s sep) < 2 \<longleftrightarrow> sep \<notin> set s"
  by (auto simp: length_Split filter_empty_conv)

lemma of_char_digitChar: "n < 10 \<Longrightarrow> (of_char (digitChar n) :: nat) = n + 48"
  by (simp add: digitChar_def)

lemma isDigit_digitChar [simp]: "n < 10 \<Longrightarrow> isDigit (digitChar n)"
  by (simp add: isDigit_def of_char_digitChar)

lemma digitVal_digitChar [simp]: "n < 10 \<Longrightarrow> digitVal (digitChar n) = n"
  by (simp add: digitVal_def of_char_digitChar)

lemma digitChar_neq: "n < 10 \<Longrightarrow> \<not> isDigit c \<Longrightarrow> digitChar n \<noteq> c"
  using isDigit_digitChar by blast

lemma not_digit_simps [simp]:
  "\<not> isDigit (CHR ''.'')" "\<not> isDigit (CHR '':'')" "\<not> isDigit (CHR ''-'')" "\<not> isDigit (CHR ''+'')"
  "\<not> isDigit (CHR ''%'')"
  by (simp_all add: isDigit_def)

lemma unat_byte: "unat (v :: byte) < 256"
  using unsigned_less [of v, where ?'a = nat] by simp

lemma set_ubtoa: "c \<in> set (ubtoa v) \<Longrightarrow> isDigit c"
proof -
  have "unat v div 100 < 10" using unat_byte [of v] by arith
  then show "c \<in> set (ubtoa v) \<Longrightarrow> isDigit c"
    by (auto simp: ubtoa_def split: if_splits)
qed

lemma Split_String:
  "Split (String (Some (IPv4 a b c d))) (CHR ''.'') = [ubtoa a, ubtoa b, ubtoa c, ubtoa d]"
proof -
  have n: "\<And>v. CHR ''.'' \<notin> set (ubtoa v)" using set_ubtoa not_digit_simps(1) by blast
  show ?thesis
    by (simp add: Split_append_sep n Split_no_sep)
qed

lemma String_no_colon: "CHR '':'' \<notin> set (String (Some ip))"
proof (cases ip)
  case (IPv4 a b c d)
  have n: "\<And>v. CHR '':'' \<notin> set (ubtoa v)" using set_ubtoa not_digit_simps(2) by blast
  show ?thesis unfolding IPv4 by (simp add: n)
qed


declare Split.simps(2) [simp del]
declare Split_Cons [simp]

lemma dec3: "(n::nat) = n div 100 * 100 + n div 10 mod 10 * 10 + n mod 10"
proof -
  have a: "n div 10 div 10 = n div 100" by (simp add: div_mult2_eq[symmetric])
  have "n div 10 * 10 = (n div 10 div 10 * 10 + n div 10 mod 10) * 10" by simp
  also have "\<dots> = n div 100 * 100 + n div 10 mod 10 * 10" by (simp only: a) (simp add: algebra_simps)
  finally have "n div 10 * 10 + n mod 10 = n div 100 * 100 + n div 10 mod 10 * 10 + n mod 10"
    by (rule arg_cong [where f = "\<lambda>x. x + n mod 10"])
  then show ?thesis by simp
qed

lemma ubtoa_255: "ubtoa d = ''255'' \<longleftrightarrow> d = 255"
proof
  assume "d = 255" then show "ubtoa d = ''255''"
    by (simp add: ubtoa_def digitChar_def digit_chars)
next
  assume a: "ubtoa d = ''255''"
  have b: "unat d < 256" by (rule unat_byte)
  from a have "length (ubtoa d) = 3" by simp
  then have n: "\<not> unat d < 100" by (simp add: ubtoa_def split: if_splits)
  then have n10: "\<not> unat d < 10" by simp
  have h: "unat d div 100 < 10" using b by simp
  have t: "unat d div 10 mod 10 < 10" by simp
  have u: "unat d mod 10 < 10" by simp
  from a n n10 have e: "digitChar (unat d div 100) = CHR ''2''" "digitChar (unat d div 10 mod 10) = CHR ''5''"
     "digitChar (unat d mod 10) = CHR ''5''"
    by (simp_all add: ubtoa_def)
  have "(of_char (digitChar (unat d div 100)) :: nat) = 50" by (simp only: e) simp
  then have 1: "unat d div 100 = 2" using h by (simp add: of_char_digitChar)
  have "(of_char (digitChar (unat d div 10 mod 10)) :: nat) = 53" by (simp only: e) simp
  then have 2: "unat d div 10 mod 10 = 5" using t by (simp add: of_char_digitChar)
  have "(of_char (digitChar (unat d mod 10)) :: nat) = 53" by (simp only: e) simp
  then have 3: "unat d mod 10 = 5" using u by (simp add: of_char_digitChar)
  have "unat d = 2 * 100 + 5 * 10 + 5" by (subst dec3) (simp only: 1 2 3)
  then have "unat d = 255" by simp
  then show "d = 255" by (simp add: word_unat_eq_iff)
qed

lemma parseUintLoop_digit:
  "n' < 10 \<Longrightarrow> n < 1000 \<Longrightarrow> n * 10 + n' \<le> maxVal \<Longrightarrow>
   parseUintLoop maxVal n (digitChar n' # cs) = parseUintLoop maxVal (n * 10 + n') cs"
  by simp

lemma ParseUint_ubtoa: "ParseUint (ubtoa d) 8 = (unat d, NoError)"
proof -
  have b: "unat d < 256" by (rule unat_byte)
  consider "unat d < 10" | "10 \<le> unat d \<and> unat d < 100" | "100 \<le> unat d" by linarith
  then show ?thesis
  proof cases
    case 1
    then show ?thesis by (simp add: ParseUint_def ubtoa_def)
  next
    case 2
    then have h: "unat d div 10 < 10" by (simp add: div_less_iff_less_mult)
    have e: "unat d div 10 * 10 + unat d mod 10 = unat d" by simp
    have "parseUintLoop 255 0 [digitChar (unat d div 10), digitChar (unat d mod 10)] = (unat d, NoError)"
      using h b by (simp only: parseUintLoop_digit) (simp add: parseUintLoop_digit e)
    then show ?thesis using 2 by (simp add: ParseUint_def ubtoa_def)
  next
    case 3
    then have h: "unat d div 100 < 10" using b by simp
    have t: "unat d div 10 mod 10 < 10" by simp
    have e: "(unat d div 100 * 10 + unat d div 10 mod 10) * 10 + unat d mod 10 = unat d"
      using dec3 [of "unat d"] by (simp add: algebra_simps)
    have e2: "unat d div 100 * 10 + unat d div 10 mod 10 \<le> 255"
      using e b by linarith
    have "parseUintLoop 255 0 [digitChar (unat d div 100), digitChar (unat d div 10 mod 10), digitChar (unat d mod 10)]
           = parseUintLoop 255 (unat d div 100) [digitChar (unat d div 10 mod 10), digitChar (unat d mod 10)]"
      using h by (subst parseUintLoop_digit) simp_all
    also have "\<dots> = parseUintLoop 255 (unat d div 100 * 10 + unat d div 10 mod 10) [digitChar (unat d mod 10)]"
      using h t e2 by (subst parseUintLoop_digit) simp_all
    also have "\<dots> = parseUintLoop 255 ((unat d div 100 * 10 + unat d div 10 mod 10) * 10 + unat d mod 10) []"
      using e e2 b by (subst parseUintLoop_digit) simp_all
    also have "\<dots> = (unat d, NoError)" by (simp only: e) simp
    finally show ?thesis using 3 by (simp add: ParseUint_def ubtoa_def)
  qed
qed

lemma ubtoa_hd: "ubtoa d \<noteq> [] \<and> hd (ubtoa d) \<noteq> CHR ''-'' \<and> hd (ubtoa d) \<noteq> CHR ''+''"
proof -
  have "hd (ubtoa d) \<in> set (ubtoa d)" by (simp add: ubtoa_def)
  then have "isDigit (hd (ubtoa d))" by (rule set_ubtoa)
  then show ?thesis using not_digit_simps by (auto simp: ubtoa_def)
qed

lemma ParseInt_ubtoa: "fst (ParseInt (ubtoa d) 8) = (if unat d \<le> 127 then int (unat d) else 127)"
  using ubtoa_hd [of d] by (simp add: ParseInt_def ParseUint_ubtoa Let_def)

lemma fields_digit:
  "n < 10 \<Longrightarrow> \<not> (digLen = 1 \<and> val = 0) \<Longrightarrow> val * 10 + n \<le> 255 \<Longrightarrow>
   parseIPv4Fields val digLen fs prev (digitChar n # cs)
     = parseIPv4Fields (val * 10 + n) (digLen + 1) fs (Some (digitChar n)) cs"
  by (auto simp: Let_def)

lemma fields_dot:
  "n < 10 \<Longrightarrow> cs \<noteq> [] \<Longrightarrow> length fs < 3 \<Longrightarrow>
   parseIPv4Fields val digLen fs (Some (digitChar n)) (CHR ''.'' # cs)
     = parseIPv4Fields 0 0 (fs @ [of_nat val]) (Some (CHR ''.'')) cs"
  using digitChar_neq [of n "CHR ''.''"] by simp

text \<open>Reading the decimal digits of a byte leaves its value and the last digit.\<close>

lemma fields_ubtoa:
  "\<exists>k n. n < 10 \<and> parseIPv4Fields 0 0 fs prev (ubtoa v @ cs)
            = parseIPv4Fields (unat v) k fs (Some (digitChar n)) cs"
proof -
  have b: "unat v < 256" by (rule unat_byte)
  consider "unat v < 10" | "10 \<le> unat v \<and> unat v < 100" | "100 \<le> unat v" by linarith
  then show ?thesis
  proof cases
    case 1
    then have "parseIPv4Fields 0 0 fs prev (ubtoa v @ cs)
        = parseIPv4Fields (unat v) 1 fs (Some (digitChar (unat v))) cs"
      by (simp add: ubtoa_def Let_def)
    with 1 show ?thesis by blast
  next
    case 2
    then have h: "unat v div 10 < 10" by (simp add: div_less_iff_less_mult)
    have h0: "unat v div 10 \<noteq> 0" using 2 div_greater_zero_iff [of "unat v" 10] by simp
    have e: "unat v div 10 * 10 + unat v mod 10 = unat v" by simp
    have "parseIPv4Fields 0 0 fs prev (ubtoa v @ cs)
        = parseIPv4Fields 0 0 fs prev (digitChar (unat v div 10) # digitChar (unat v mod 10) # cs)"
      using 2 by (simp add: ubtoa_def)
    also have "\<dots> = parseIPv4Fields (unat v div 10) 1 fs (Some (digitChar (unat v div 10)))
                        (digitChar (unat v mod 10) # cs)"
      using h by (subst fields_digit) simp_all
    also have "\<dots> = parseIPv4Fields (unat v div 10 * 10 + unat v mod 10) 2 fs
                        (Some (digitChar (unat v mod 10))) cs"
      using h0 b by (subst fields_digit) (simp_all add: numeral_2_eq_2)
    finally have "parseIPv4Fields 0 0 fs prev (ubtoa v @ cs)
        = parseIPv4Fields (unat v) 2 fs (Some (digitChar (unat v mod 10))) cs"
      by (simp only: e)
    moreover have "unat v mod 10 < 10" by simp
    ultimately show ?thesis by blast
  next
    case 3
    then have h: "unat v div 100 < 10" using b by simp
    have h0: "unat v div 100 \<noteq> 0" using 3 div_greater_zero_iff [of "unat v" 100] by simp
    have t: "unat v div 10 mod 10 < 10" by simp
    have e: "(unat v div 100 * 10 + unat v div 10 mod 10) * 10 + unat v mod 10 = unat v"
      using dec3 [of "unat v"] by (simp add: algebra_simps)
    have e2: "unat v div 100 * 10 + unat v div 10 mod 10 \<le> 255"
      using e b by linarith
    have "parseIPv4Fields 0 0 fs prev (ubtoa v @ cs)
        = parseIPv4Fields 0 0 fs prev
            (digitChar (unat v div 100) # digitChar (unat v div 10 mod 10) # digitChar (unat v mod 10) # cs)"
      using 3 by (simp add: ubtoa_def)
    also have "\<dots> = parseIPv4Fields (unat v div 100) 1 fs (Some (digitChar (unat v div 100)))
                        (digitChar (unat v div 10 mod 10) # digitChar (unat v mod 10) # cs)"
      using h by (subst fields_digit) simp_all
    also have "\<dots> = parseIPv4Fields (unat v div 100 * 10 + unat v div 10 mod 10) 2 fs
                        (Some (digitChar (unat v div 10 mod 10))) (digitChar (unat v mod 10) # cs)"
      using h0 e2 by (subst fields_digit) (simp_all add: numeral_2_eq_2)
    also have "\<dots> = parseIPv4Fields ((unat v div 100 * 10 + unat v div 10 mod 10) * 10 + unat v mod 10) 3
                        fs (Some (digitChar (unat v mod 10))) cs"
      using e b by (subst fields_digit) (simp_all add: numeral_3_eq_3)
    finally have "parseIPv4Fields 0 0 fs prev (ubtoa v @ cs)
        = parseIPv4Fields (unat v) 3 fs (Some (digitChar (unat v mod 10))) cs"
      by (simp only: e)
    moreover have "unat v mod 10 < 10" by simp
    ultimately show ?thesis by blast
  qed
qed

lemma fields_ubtoa_dot:
  assumes "cs \<noteq> []" "length fs < 3"
  shows "parseIPv4Fields 0 0 fs prev (ubtoa v @ CHR ''.'' # cs)
           = parseIPv4Fields 0 0 (fs @ [v]) (Some (CHR ''.'')) cs"
proof -
  obtain k n where n: "n < 10"
    and e: "parseIPv4Fields 0 0 fs prev (ubtoa v @ CHR ''.'' # cs)
            = parseIPv4Fields (unat v) k fs (Some (digitChar n)) (CHR ''.'' # cs)"
    using fields_ubtoa by blast
  show ?thesis unfolding e using n assms by (subst fields_dot) simp_all
qed

lemma fields_ubtoa_end:
  "parseIPv4Fields 0 0 fs prev (ubtoa v)
     = (if length fs < 3 then None else Some (fs @ [v]))"
proof -
  obtain k n where e: "parseIPv4Fields 0 0 fs prev (ubtoa v @ [])
            = parseIPv4Fields (unat v) k fs (Some (digitChar n)) []"
    using fields_ubtoa by blast
  then show ?thesis by simp
qed

lemma ubtoa_not_Nil [simp]: "ubtoa v \<noteq> []"
  by (simp add: ubtoa_def)

lemma parseIPv4_String: "parseIPv4 (String (Some (IPv4 a b c d))) = Some (IPv4 a b c d)"
proof -
  have "parseIPv4Fields 0 0 [] None (ubtoa a @ CHR ''.'' # ubtoa b @ CHR ''.'' # ubtoa c @ CHR ''.'' # ubtoa d)
      = parseIPv4Fields 0 0 [a] (Some (CHR ''.'')) (ubtoa b @ CHR ''.'' # ubtoa c @ CHR ''.'' # ubtoa d)"
    by (subst fields_ubtoa_dot) simp_all
  also have "\<dots> = parseIPv4Fields 0 0 [a, b] (Some (CHR ''.'')) (ubtoa c @ CHR ''.'' # ubtoa d)"
    by (subst fields_ubtoa_dot) simp_all
  also have "\<dots> = parseIPv4Fields 0 0 [a, b, c] (Some (CHR ''.'')) (ubtoa d)"
    by (subst fields_ubtoa_dot) simp_all
  also have "\<dots> = Some [a, b, c, d]"
    by (subst fields_ubtoa_end) simp
  finally show ?thesis by (simp add: parseIPv4_def)
qed

lemma ParseAddr_digits:
  "\<forall>c \<in> set ds. isDigit c \<Longrightarrow> ParseAddr s (ds @ CHR ''.'' # cs) = parseIPv4 s"
proof (induction ds)
  case Nil
  then show ?case by simp
next
  case (Cons x xs)
  then have "isDigit x" by simp
  then have "x \<noteq> CHR ''.'' \<and> x \<noteq> CHR '':'' \<and> x \<noteq> CHR ''%''"
    using not_digit_simps by blast
  then show ?case using Cons by simp
qed

lemma ParseIP_String: "ParseIP (String (Some ip)) = Some ip"
proof (cases ip)
  case (IPv4 a b c d)
  have "ParseAddr (String (Some (IPv4 a b c d)))
          (ubtoa a @ CHR ''.'' # (ubtoa b @ ''.'' @ ubtoa c @ ''.'' @ ubtoa d))
        = parseIPv4 (String (Some (IPv4 a b c d)))"
    by (rule ParseAddr_digits) (simp add: set_ubtoa)
  then have "ParseIP (String (Some (IPv4 a b c d))) = parseIPv4 (String (Some (IPv4 a b c d)))"
    by (simp add: ParseIP_def)
  then show ?thesis unfolding IPv4 by (simp only: parseIPv4_String)
qed

text \<open>
  The text before the first colon of \<^verbatim>\<open>a.b.c.d:port\<close> parses to the address: every
  IPv4 address in dotted decimal, as OpenSMTPD writes the peer of a connection, is an
  address field that \<^verbatim>\<open>linkConnect\<close> reads as that address.
\<close>

lemma ParseIP_address_field:
  "ParseIP (Split (String (Some ip) @ '':'' @ port) (CHR '':'') ! 0) = Some ip"
  using String_no_colon [of ip] by (simp add: Split_append_sep ParseIP_String)

subsection \<open>Conversions between the integer types\<close>

lemma sint_to_int8: "sint (to_int8 x) = wrap8 (sint x)"
proof -
  have "sint (ucast x :: 8 word) = signed_take_bit 7 (uint x)"
    by (simp add: signed_ucast_eq)
  also have "\<dots> = signed_take_bit 7 (signed_take_bit 63 (uint x))"
    by (simp add: signed_take_bit_signed_take_bit)
  also have "\<dots> = signed_take_bit 7 (sint x)"
    by (simp add: sint_uint)
  also have "\<dots> = wrap8 (sint x)"
    by (simp add: signed_take_bit_eq_take_bit_shift take_bit_eq_mod wrap8_def)
  finally show ?thesis by (simp add: to_int8_def)
qed

lemma sint_int8_range: "- 128 \<le> sint (y :: int8) \<and> sint y < 128"
  using sint_ge [of y] sint_lt [of y] by simp

lemma wrap8_id: "- 128 \<le> k \<Longrightarrow> k < 128 \<Longrightarrow> wrap8 k = k"
  by (simp add: wrap8_def)

lemma wrap8_range: "- 128 \<le> wrap8 k \<and> wrap8 k < 128"
  by (simp add: wrap8_def)

lemma sint_to_int: "sint (to_int y) = sint y"
proof -
  have "sint (scast y :: 64 word) = signed_take_bit 63 (sint y)"
    by (simp add: signed_scast_eq)
  also have "\<dots> = sint y"
    using sint_int8_range [of y] by (intro signed_take_bit_int_eq_self) simp_all
  finally show ?thesis by (simp add: to_int_def)
qed

lemma sint_go_int_of_int: "- (2 ^ 63) \<le> k \<Longrightarrow> k < 2 ^ 63 \<Longrightarrow> sint (word_of_int k :: go_int) = k"
  by (simp add: signed_of_int signed_take_bit_int_eq_self)

lemma sint_int8_of_int: "- 128 \<le> k \<Longrightarrow> k < 128 \<Longrightarrow> sint (word_of_int k :: int8) = k"
  by (simp add: signed_of_int signed_take_bit_int_eq_self)

lemma sint_go_int_of_nat: "n < 2 ^ 63 \<Longrightarrow> sint (of_nat n :: go_int) = int n"
  using sint_go_int_of_int [of "int n"] by simp

lemma sint_mult_no_overflow:
  "- (2 ^ 63) \<le> sint (a :: go_int) * sint b \<Longrightarrow> sint a * sint b < 2 ^ 63 \<Longrightarrow>
   sint (a * b) = sint a * sint b"
proof -
  assume r: "- (2 ^ 63) \<le> sint a * sint b" "sint a * sint b < 2 ^ 63"
  have "a * b = word_of_int (sint a * sint b)"
    by simp
  then show ?thesis using r sint_go_int_of_int by metis
qed

lemma int8_eq_iff: "(x :: int8) = y \<longleftrightarrow> sint x = sint y"
  by (rule word_eq_iff_signed)

lemma to_int8_eq: "sint (x :: go_int) = sint (y :: int8) \<Longrightarrow> to_int8 x = y"
  using sint_int8_range [of y] by (simp add: int8_eq_iff sint_to_int8 wrap8_id)

section \<open>Facts about the handlers\<close>

subsection \<open>Responses\<close>

lemma produceOutput_dot:
  "CHR ''.'' \<in> set ver \<Longrightarrow>
   produceOutput ver msgType sid tok text
     = Inr (outputLine (Split ver (CHR ''.'')) msgType sid tok text)"
  using length_Split_less2 [of ver "CHR ''.''"] by (simp add: produceOutput_def)


lemma waitThenAction_dot:
  "CHR ''.'' \<in> set (version st) \<Longrightarrow>
   waitThenAction st sid tok dly verdict
     = Inr (st, sleepEffects dly
                @ [Output (outputLine (Split (version st) (CHR ''.'')) ''filter-result''
                             sid tok verdict)])"
  by (simp add: waitThenAction_def produceOutput_dot)


lemma delayed_testMode:
  assumes "sessions st sid = Some s" "params \<noteq> []" "testMode cfg"
  shows "delayed cfg verdict sid params st
           = waitThenAction st sid (params ! 0) (delay s) verdict"
  using assms by (simp add: delayed_def getSession_def)

lemma delayed_go:
  assumes "sessions st sid = Some s" "params \<noteq> []" "\<not> testMode cfg"
  shows "delayed cfg verdict sid params st
           = Inr (st, [Go (WaitThenAction sid (params ! 0) (delay s) verdict)])"
  using assms by (simp add: delayed_def getSession_def)

lemma delayed_returns:
  assumes "sessions st sid = Some s" "params \<noteq> []" "CHR ''.'' \<in> set (version st)"
  shows "delayed cfg verdict sid params st
           = Inr (st, if testMode cfg
                      then sleepEffects (delay s)
                           @ [Output (outputLine (Split (version st) (CHR ''.'')) ''filter-result''
                                        sid (params ! 0) verdict)]
                      else [Go (WaitThenAction sid (params ! 0) (delay s) verdict)])"
  using assms by (simp add: delayed_testMode delayed_go waitThenAction_dot)

text \<open>The pause of \<^verbatim>\<open>waitThenAction\<close>, for a delay whose nanoseconds fit a \<^verbatim>\<open>Duration\<close>.\<close>

lemma sleepEffects_value:
  assumes "0 \<le> q" "q * 1000000 < 2 ^ 63"
  shows "sleepEffects (word_of_int q)
           = (if 0 < q then [Sleep (word_of_int (q * 1000000))] else [])"
proof -
  have q63: "q < 2 ^ 63" using assms by simp
  have sq: "sint (word_of_int q :: go_int) = q"
    using assms(1) q63 by (intro sint_go_int_of_int) simp_all
  have "sint (word_of_int (q * 1000000) :: Duration) = q * 1000000"
    using assms by (intro sint_go_int_of_int) simp_all
  then have sd: "sint ((word_of_int q :: Duration) * 1000000) = q * 1000000"
    by simp
  show ?thesis
    using assms(1) by (simp add: sleepEffects_def timeSleep_def Millisecond_def sq sd)
qed

subsection \<open>The link-connect handler\<close>

lemma atoms_String:
  "Split (String (Some (IPv4 a b c d))) (CHR ''.'') ! 3 = ubtoa d"
  "length (Split (String (Some (IPv4 a b c d))) (CHR ''.'')) = 4"
  by (simp_all only: Split_String) simp_all

lemma linkConnect_unparsed:
  assumes "length params = 4" "ParseIP (Split (params ! 2) (CHR '':'') ! 0) = None"
  shows "linkConnect cfg resolve phase sid params st = Inr (putSession st sid newSession, [])"
  using assms by (simp add: linkConnect_def)

lemma linkConnect_allowlisted:
  assumes "length params = 4" "ParseIP (Split (params ! 2) (CHR '':'') ! 0) = Some a"
    and "allowlisted (allowlist cfg) a (allowlistMasks cfg)"
  shows "linkConnect cfg resolve phase sid params st
           = Inr (putSession st sid (newSession\<lparr>score := 0\<rparr>), [])"
  using assms String_no_colon [of a] by (simp add: linkConnect_def Contains_def del: String.simps)

lemma linkConnect_testMode:
  assumes "length params = 4"
    and "ParseIP (Split (params ! 2) (CHR '':'') ! 0) = Some (IPv4 a b c d)"
    and "\<not> allowlisted (allowlist cfg) (IPv4 a b c d) (allowlistMasks cfg)"
    and "testMode cfg"
  shows "linkConnect cfg resolve phase sid params st
           = Inr (putSession st sid
                    (if d = 255 then newSession
                     else newSession\<lparr>score := word_of_int (if unat d \<le> 127 then int (unat d) else 127)\<rparr>),
                  [])"
  using assms String_no_colon [of "IPv4 a b c d"]
  by (simp add: linkConnect_def Contains_def atoms_String ubtoa_255 ParseInt_ubtoa Let_def
        del: String.simps)

lemma linkConnect_lookup:
  assumes "length params = 4"
    and "ParseIP (Split (params ! 2) (CHR '':'') ! 0) = Some (IPv4 a b c d)"
    and "\<not> allowlisted (allowlist cfg) (IPv4 a b c d) (allowlistMasks cfg)"
    and "\<not> testMode cfg"
  shows "linkConnect cfg resolve phase sid params st
           = Inr (putSession st sid
                    (newSession\<lparr>score := word_of_int
                        (lookupScore resolve [ubtoa a, ubtoa b, ubtoa c, ubtoa d] (domains cfg))\<rparr>),
                  map (\<lambda>domain. LookupIP (lookupName [ubtoa a, ubtoa b, ubtoa c, ubtoa d] domain))
                      (domains cfg))"
  using assms String_no_colon [of "IPv4 a b c d"]
  by (simp add: linkConnect_def Contains_def Let_def Split_String del: String.simps)

lemma sessionOf_Inr [simp]: "sessionOf (Inr (st, effs)) sid = sessions st sid"
  by (simp add: sessionOf_def)

lemma effectsOf_Inr [simp]: "effectsOf (Inr (st, effs)) = Some effs"
  by (simp add: effectsOf_def)

lemma sessions_putSession [simp]: "sessions (putSession st sid s) sid = Some s"
  by (simp add: putSession_def)

lemmas parse_eval = ParseIP_def parseIPv4_def isDigit_def digitVal_def

lemma scoreOf_Inr [simp]:
  "scoreOf (Inr (st, effs)) sid = map_option (\<lambda>s. sint (score s)) (sessions st sid)"
  by (simp add: scoreOf_def)

lemma linkConnect_form:
  assumes "length params = 4"
  shows "\<exists>s effs. first_line s \<and> delay s = 0 \<and>
           (\<forall>st. linkConnect cfg resolve phase sid params st = Inr (putSession st sid s, effs))"
proof (cases "ParseIP (Split (params ! 2) (CHR '':'') ! 0)")
  case None
  then have "\<forall>st. linkConnect cfg resolve phase sid params st = Inr (putSession st sid newSession, [])"
    using assms by (simp add: linkConnect_unparsed)
  moreover have "first_line newSession \<and> delay newSession = 0" by (simp add: newSession_def)
  ultimately show ?thesis by blast
next
  case (Some ip)
  obtain a b c d where ip: "ip = IPv4 a b c d" by (cases ip)
  note p = Some [unfolded ip]
  show ?thesis
  proof (cases "allowlisted (allowlist cfg) (IPv4 a b c d) (allowlistMasks cfg)")
    case True
    then have "\<forall>st. linkConnect cfg resolve phase sid params st
                 = Inr (putSession st sid (newSession\<lparr>score := 0\<rparr>), [])"
      using assms p by (simp add: linkConnect_allowlisted)
    moreover have "first_line (newSession\<lparr>score := 0\<rparr>) \<and> delay (newSession\<lparr>score := 0\<rparr>) = 0"
      by (simp add: newSession_def)
    ultimately show ?thesis by blast
  next
    case False
    show ?thesis
    proof (cases "testMode cfg")
      case True
      let ?s = "if d = 255 then newSession
                else newSession\<lparr>score := word_of_int (if unat d \<le> 127 then int (unat d) else 127)\<rparr>"
      have "\<forall>st. linkConnect cfg resolve phase sid params st = Inr (putSession st sid ?s, [])"
        using assms p False True by (simp add: linkConnect_testMode)
      moreover have "first_line ?s \<and> delay ?s = 0" by (simp add: newSession_def)
      ultimately show ?thesis by blast
    next
      case nt: False
      let ?s = "newSession\<lparr>score := word_of_int
                        (lookupScore resolve [ubtoa a, ubtoa b, ubtoa c, ubtoa d] (domains cfg))\<rparr>"
      let ?e = "map (\<lambda>domain. LookupIP (lookupName [ubtoa a, ubtoa b, ubtoa c, ubtoa d] domain))
                      (domains cfg)"
      have "\<forall>st. linkConnect cfg resolve phase sid params st = Inr (putSession st sid ?s, ?e)"
        using assms p False nt by (simp add: linkConnect_lookup)
      moreover have "first_line ?s \<and> delay ?s = 0" by (simp add: newSession_def)
      ultimately show ?thesis by blast
    qed
  qed
qed

lemma putSession_overwrites:
  "putSession (st\<lparr>sessions := (sessions st)(sid \<mapsto> old)\<rparr>) sid s = putSession st sid s"
  by (simp add: putSession_def)

subsection \<open>Body lines and verdicts\<close>

lemma delayed_state:
  "delayed cfg verdict sid params st = Inr (st', effs) \<Longrightarrow> st' = st"
  by (auto simp: delayed_def waitThenAction_def split: sum.splits if_splits)

lemma dataline_returns:
  assumes "sessions st sid = Some s" "params \<noteq> []" "CHR ''.'' \<in> set (version st)"
  shows "dataline cfg phase sid params st
           = Inr (if first_line s then putSession st sid (s\<lparr>first_line := False\<rparr>) else st,
                  (if first_line s \<and> score s \<noteq> - 1 \<and> scoreHeader cfg
                   then [Output (outputLine (Split (version st) (CHR ''.'')) ''filter-dataline'' sid
                                   (params ! 0) (''X-DNSBL-Score: '' @ itoa (sint (score s))))]
                   else [])
                  @ [Output (outputLine (Split (version st) (CHR ''.'')) ''filter-dataline'' sid
                               (params ! 0) (Join (tl params) ''|''))])"
  using assms by (simp add: dataline_def getSession_def produceOutput_dot Let_def)

lemmas eval_defs =
  handleLine_def trigger_def reporters_def filters_def linkConnect_def linkDisconnect_def
  filterConnect_def delayedAnswer_def dataline_def delayed_def delayedProceed_def delayedJunk_def
  delayedDisconnect_def waitThenAction_def sleepEffects_def timeSleep_def Millisecond_def
  produceOutput_def outputLine_def
  getSession_def putSession_def blocks_def junks_def newSession_def
  ParseIP_def parseIPv4_def isDigit_def digitVal_def digitChar_def digit_chars ubtoa_def
  ParseInt_def ParseUint_def Atoi_def itoa_def CIDRMask_def Contains_def lookupName_def
  sessionOf_def effectsOf_def scoreOf_def defaultConfig_def initialState_def noHits_def
  allHits_def Let_def

lemma getSession_Some [simp]: "sessions st sid = Some s \<Longrightarrow> getSession st sid = Inr s"
  by (simp add: getSession_def)

lemma blocks_delay [simp]: "blocks cfg (s\<lparr>delay := dly\<rparr>) phase = blocks cfg s phase"
  by (simp add: blocks_def)

lemma junks_delay [simp]: "junks cfg (s\<lparr>delay := dly\<rparr>) = junks cfg s"
  by (simp add: junks_def)

text \<open>Which verdict each of the two verdict handlers passes on, and in which state.\<close>

lemma delayedAnswer_verdict:
  assumes "sessions st sid = Some s"
  shows "delayedAnswer cfg phase sid params st
           = delayed cfg (if blocks cfg s phase
                          then ''disconnect|550 your IP reputation is too low for this MX''
                          else ''proceed'') sid params st"
  using assms by (simp add: delayedAnswer_def delayedDisconnect_def delayedProceed_def)

lemma filterConnect_verdict:
  assumes "sessions st sid = Some s"
    and "\<not> (0 < sint (slowFactor cfg) \<and> 0 < sint (score s) \<and> domains cfg = [])"
  shows "filterConnect cfg phase sid params st
           = delayed cfg (if blocks cfg s ''connect''
                          then ''disconnect|550 your IP reputation is too low for this MX''
                          else if junks cfg s then ''junk'' else ''proceed'')
               sid params (putSession st sid (s\<lparr>delay := slowDelay cfg s\<rparr>))"
  using assms
  by (auto simp: filterConnect_def delayedDisconnect_def delayedProceed_def delayedJunk_def Let_def)

lemma version_putSession [simp]: "version (putSession st sid s) = version st"
  by (simp add: putSession_def)

subsection \<open>The allowlist\<close>

lemma allowlisted_iff:
  "allowlisted al addr masks
     \<longleftrightarrow> (\<exists>m \<in> set masks. String (Mask addr (CIDRMask m 32)) @ ''/'' @ itoa m \<in> al)"
  by (induction masks) (auto simp: Let_def)

lemma addSubnet_keeps:
  assumes "addSubnet e cfg = Inr cfg1"
  shows "m \<in> set (allowlistMasks cfg) \<Longrightarrow> m \<in> set (allowlistMasks cfg1)"
    and "k \<in> allowlist cfg \<Longrightarrow> k \<in> allowlist cfg1"
  using assms by (auto simp: addSubnet_def Let_def split: if_splits)

lemma addSubnet_adds:
  assumes "addSubnet e cfg = Inr cfg1"
  shows "snd e \<in> set (allowlistMasks cfg1)"
    and "String (Mask (fst e) (CIDRMask (snd e) 32)) @ ''/'' @ itoa (snd e) \<in> allowlist cfg1"
  using assms by (auto simp: addSubnet_def Let_def split: if_splits)

lemma loadAllowlists_keeps:
  assumes "loadAllowlists es cfg = Inr cfg1"
  shows "m \<in> set (allowlistMasks cfg) \<Longrightarrow> m \<in> set (allowlistMasks cfg1)"
    and "k \<in> allowlist cfg \<Longrightarrow> k \<in> allowlist cfg1"
  using assms
  by (induction es arbitrary: cfg) (auto split: sum.splits dest: addSubnet_keeps)

lemma loadAllowlists_holds:
  assumes "loadAllowlists entries cfg = Inr cfg1" and "e \<in> set entries"
  shows "snd e \<in> set (allowlistMasks cfg1)
         \<and> String (Mask (fst e) (CIDRMask (snd e) 32)) @ ''/'' @ itoa (snd e) \<in> allowlist cfg1"
  using assms
proof (induction entries arbitrary: cfg)
  case Nil
  then show ?case by simp
next
  case (Cons x xs)
  from Cons.prems(1) obtain c where c: "addSubnet x cfg = Inr c" and r: "loadAllowlists xs c = Inr cfg1"
    by (auto split: sum.splits)
  show ?case
  proof (cases "e = x")
    case True
    then show ?thesis
      using addSubnet_adds [OF c] loadAllowlists_keeps [OF r] by simp
  next
    case False
    then have "e \<in> set xs" using Cons.prems(2) by simp
    then show ?thesis using Cons.IH [OF r] by simp
  qed
qed

text \<open>The thresholds play no part in loading the allowlist or in the start of \<^verbatim>\<open>main\<close>.\<close>

lemma addSubnet_thresholds:
  "addSubnet e (cfg\<lparr>blockAbove := b, junkAbove := j\<rparr>)
     = (case addSubnet e cfg of Inl err \<Rightarrow> Inl err
        | Inr c \<Rightarrow> Inr (c\<lparr>blockAbove := b, junkAbove := j\<rparr>))"
  by (simp add: addSubnet_def Let_def)

lemma loadAllowlists_thresholds:
  "loadAllowlists es (cfg\<lparr>blockAbove := b, junkAbove := j\<rparr>)
     = (case loadAllowlists es cfg of Inl err \<Rightarrow> Inl err
        | Inr c \<Rightarrow> Inr (c\<lparr>blockAbove := b, junkAbove := j\<rparr>))"
  by (induction es arbitrary: cfg) (simp_all add: addSubnet_thresholds split: sum.splits)

lemma startup_thresholds:
  "startup es (cfg\<lparr>blockAbove := b, junkAbove := j\<rparr>)
     = (case startup es cfg of Inl err \<Rightarrow> Inl err
        | Inr c \<Rightarrow> Inr (c\<lparr>blockAbove := b, junkAbove := j\<rparr>))"
  by (simp add: startup_def loadAllowlists_thresholds split: sum.splits)

lemma cidrBytes_unfold:
  "cidrBytes l n =
     (if l = 0 then []
      else if n \<ge> 8 then 0xFF # cidrBytes (l - 1) (n - 8)
      else NOT (drop_bit n 0xFF) # cidrBytes (l - 1) 0)"
  by (cases l) simp_all

subsection \<open>Thresholds\<close>

lemma filters_cases:
  assumes "filters cfg phase = Some h" "phase \<noteq> ''data-line''"
  shows "(phase = ''connect'' \<and> h = filterConnect cfg) \<or> (phase \<noteq> ''connect'' \<and> h = delayedAnswer cfg)"
  using assms by (auto simp: filters_def split: if_splits)

lemma not_blocks_at_threshold:
  "sint (score s) = sint (blockAbove cfg) \<Longrightarrow> \<not> blocks cfg s phase"
  using to_int8_eq [of "blockAbove cfg" "score s"] by (simp add: blocks_def)

lemma not_junks_at_threshold:
  "sint (score s) = sint (junkAbove cfg) \<Longrightarrow> \<not> junks cfg s"
  using to_int8_eq [of "junkAbove cfg" "score s"] by (simp add: junks_def)

lemma ParseAddr_no_dot: "CHR ''.'' \<notin> set cs \<Longrightarrow> ParseAddr s cs = None"
  by (induction cs) auto

lemma ParseIP_no_dot: "CHR ''.'' \<notin> set s \<Longrightarrow> ParseIP s = None"
  by (simp add: ParseIP_def ParseAddr_no_dot)

lemma slowDelay_unknown: "score s = - 1 \<Longrightarrow> slowDelay cfg s = 0"
  by (simp add: slowDelay_def)

text \<open>The two conditions, as comparisons with the wrapped thresholds.\<close>

lemma blocks_wrap8:
  "blocks cfg s phase \<longleftrightarrow>
     score s \<noteq> - 1 \<and> 0 \<le> wrap8 (sint (blockAbove cfg))
     \<and> wrap8 (sint (blockAbove cfg)) < sint (score s) \<and> blockPhase cfg = phase"
  by (simp add: blocks_def sint_to_int8)

lemma junks_wrap8:
  "junks cfg s \<longleftrightarrow>
     score s \<noteq> - 1 \<and> 0 \<le> wrap8 (sint (junkAbove cfg))
     \<and> wrap8 (sint (junkAbove cfg)) < sint (score s)"
  by (simp add: junks_def sint_to_int8)

subsection \<open>A version without a dot\<close>



lemma getSession_None [simp]:
  "sessions st sid = None \<Longrightarrow> getSession st sid = Inl (Fatal (''invalid session ID: '' @ sid))"
  by (simp add: getSession_def)





lemma wrap8_congruent: "(wrap8 k - k) mod 256 = 0"
proof -
  have "wrap8 k - k = (k + 128) mod 256 - (k + 128)" by (simp add: wrap8_def)
  also have "\<dots> mod 256 = (k + 128 - (k + 128)) mod 256"
    by (rule mod_diff_left_eq)
  finally show ?thesis by simp
qed

subsection \<open>The delay\<close>

lemma sdiv_pos: "0 \<le> (k :: int) \<Longrightarrow> 0 < l \<Longrightarrow> k sdiv l = k div l"
  by (simp add: signed_divide_int_def sgn_if)

lemma slowDelay_value:
  assumes "0 < sint (slowFactor cfg)" "0 < sint (score s)"
    and "sint (slowFactor cfg) * sint (score s) < 2 ^ 63"
    and "domains cfg \<noteq> []" "length (domains cfg) < 2 ^ 63"
  shows "sint (slowDelay cfg s) = sint (slowFactor cfg) * sint (score s) div int (length (domains cfg))"
proof -
  let ?p = "sint (slowFactor cfg) * sint (score s)"
  let ?n = "int (length (domains cfg))"
  have pos: "0 < ?p" using assms(1,2) by simp
  have p: "sint (slowFactor cfg * to_int (score s)) = ?p"
    using sint_mult_no_overflow [of "slowFactor cfg" "to_int (score s)"] pos assms(3)
    by (simp add: sint_to_int)
  have n: "sint (of_nat (length (domains cfg)) :: go_int) = ?n"
    using assms(5) by (rule sint_go_int_of_nat)
  have n0: "0 < ?n" using assms(4) by simp
  have q: "0 \<le> ?p div ?n \<and> ?p div ?n \<le> ?p"
    using pos n0 int_div_le_self [of "?p" "?n"] by (simp add: pos_imp_zdiv_nonneg_iff)
  have "slowDelay cfg s = word_of_int (?p div ?n)"
    using assms(1,2) pos n0 by (simp add: slowDelay_def go_div_def p n sdiv_pos)
  moreover have "sint (word_of_int (?p div ?n) :: go_int) = ?p div ?n"
    using q assms(3) by (intro sint_go_int_of_int) simp_all
  ultimately show ?thesis by simp
qed

lemma slowDelay_disabled:
  "sint (slowFactor cfg) \<le> 0 \<or> sint (score s) \<le> 0 \<Longrightarrow> slowDelay cfg s = 0"
  by (auto simp: slowDelay_def)

subsection \<open>The tests of the repository\<close>

text \<open>
  The repository's test script runs the filter in test mode with \<^verbatim>\<open>-junkAbove 1\<close> on a
  link-connect line and a connect line, once for the address \<open>1.2.3.4\<close> and once for
  \<open>1.2.3.0\<close>, and expects \<^verbatim>\<open>junk\<close> for the first and \<^verbatim>\<open>proceed\<close> for the second. The model
  gives the two expected outputs.
\<close>

lemma repository_test_junk:
  "fst (run ((defaultConfig [''dnsbl.example''])\<lparr>testMode := True, junkAbove := 1\<rparr>) noHits
     [''report|0.5|0|smtp-in|link-connect|7641df9771b4ed00||pass|1.2.3.4:33174|1.1.1.1:25'',
      ''filter|0.5|0|smtp-in|connect|7641df9771b4ed00|1ef1c203cc576e5d||pass|1.2.3.4:33174|1.1.1.1:25'']
     initialState)
   = [Output ''filter-result|7641df9771b4ed00|1ef1c203cc576e5d|junk'']"
  by (simp add: eval_defs slowDelay_def sint_to_int8 wrap8_def)

lemma repository_test_proceed:
  "fst (run ((defaultConfig [''dnsbl.example''])\<lparr>testMode := True, junkAbove := 1\<rparr>) noHits
     [''report|0.5|0|smtp-in|link-connect|7641df9771b4ed00||pass|1.2.3.0:33174|1.1.1.1:25'',
      ''filter|0.5|0|smtp-in|connect|7641df9771b4ed00|1ef1c203cc576e5d||pass|1.2.3.0:33174|1.1.1.1:25'']
     initialState)
   = [Output ''filter-result|7641df9771b4ed00|1ef1c203cc576e5d|proceed'']"
  by (simp add: eval_defs slowDelay_def sint_to_int8 wrap8_def)

section \<open>The claims\<close>

text \<open>
  Claim C1, as the code has it. In test mode, for a connecting address that parses as the
  IPv4 address \<open>a.b.c.d\<close> and that the allowlist does not match, no lookup is made; the
  score is unknown (\<open>-1\<close>) for \<open>d = 255\<close>, it is \<open>d\<close> for \<open>d\<close> from 0 to 127, and it is
  127 for \<open>d\<close> from 128 to 254, where \<^verbatim>\<open>ParseInt\<close> with a bit size of 8 clamps the octet to
  the largest \<^verbatim>\<open>int8\<close>.
\<close>

theorem C1_test_mode_score:
  assumes "testMode cfg" and "length params = 4"
    and "ParseIP (Split (params ! 2) (CHR '':'') ! 0) = Some (IPv4 a b c d)"
    and "\<not> allowlisted (allowlist cfg) (IPv4 a b c d) (allowlistMasks cfg)"
  shows "effectsOf (linkConnect cfg resolve phase sid params st) = Some [] \<and>
         scoreOf (linkConnect cfg resolve phase sid params st) sid
           = Some (if d = 255 then - 1 else if unat d \<le> 127 then int (unat d) else 127)"
proof -
  have r: "linkConnect cfg resolve phase sid params st
           = Inr (putSession st sid
                    (if d = 255 then newSession
                     else newSession\<lparr>score := word_of_int (if unat d \<le> 127 then int (unat d) else 127)\<rparr>),
                  [])"
    using assms by (intro linkConnect_testMode) simp_all
  have "\<And>n. n \<le> 127 \<Longrightarrow> sint (word_of_int (int n) :: int8) = int n"
    by (intro sint_int8_of_int) simp_all
  from this [of "unat d"] show ?thesis unfolding r by (simp add: newSession_def sint_int8_of_int)
qed

theorem C1_test_mode_score_witness:
  "effectsOf (linkConnect ((defaultConfig [''dnsbl.example''])\<lparr>testMode := True\<rparr>) noHits
       ''link-connect'' ''ID'' ['''', ''pass'', ''1.2.3.4:33174'', ''1.1.1.1:25''] initialState) = Some [] \<and>
   scoreOf (linkConnect ((defaultConfig [''dnsbl.example''])\<lparr>testMode := True\<rparr>) noHits
       ''link-connect'' ''ID'' ['''', ''pass'', ''1.2.3.4:33174'', ''1.1.1.1:25''] initialState) ''ID''
     = Some 4"
proof -
  let ?cfg = "(defaultConfig [''dnsbl.example''])\<lparr>testMode := True\<rparr>"
  let ?params = "['''', ''pass'', ''1.2.3.4:33174'', ''1.1.1.1:25'']"
  have h1: "testMode ?cfg" by (simp add: defaultConfig_def)
  have h2: "length ?params = 4" by simp
  have h3: "ParseIP (Split (?params ! 2) (CHR '':'') ! 0) = Some (IPv4 1 2 3 4)"
    by (simp add: parse_eval)
  have h4: "\<not> allowlisted (allowlist ?cfg) (IPv4 1 2 3 4) (allowlistMasks ?cfg)"
    by (simp add: defaultConfig_def)
  show ?thesis
    using C1_test_mode_score [OF h1 h2 h3 h4, of noHits "''link-connect''" "''ID''" initialState]
    by simp
qed

text \<open>
  Claim C1 as stated fails for the octets from 128 to 254: the address \<open>1.2.3.200\<close> gets
  the score 127, not 200.
\<close>

theorem C1_counterexample:
  "scoreOf (handleLine ((defaultConfig [''dnsbl.example''])\<lparr>testMode := True\<rparr>) noHits
      ''report|0.5|0|smtp-in|link-connect|ID||pass|1.2.3.200:33174|1.1.1.1:25'' initialState) ''ID''
     = Some 127"
proof -
  let ?cfg = "(defaultConfig [''dnsbl.example''])\<lparr>testMode := True\<rparr>"
  let ?params = "['''', ''pass'', ''1.2.3.200:33174'', ''1.1.1.1:25'']"
  let ?st = "initialState\<lparr>version := ''0.5''\<rparr>"
  have h3: "ParseIP (Split (?params ! 2) (CHR '':'') ! 0) = Some (IPv4 1 2 3 200)"
    by (simp add: parse_eval)
  have h4: "\<not> allowlisted (allowlist ?cfg) (IPv4 1 2 3 200) (allowlistMasks ?cfg)"
    by (simp add: defaultConfig_def)
  have l: "linkConnect ?cfg noHits ''link-connect'' ''ID'' ?params ?st
        = Inr (putSession ?st ''ID'' (newSession\<lparr>score := 127\<rparr>), [])"
    using linkConnect_testMode [OF _ h3 h4, of noHits "''link-connect''" "''ID''" ?st]
    by (simp add: defaultConfig_def)
  have "handleLine ?cfg noHits
      ''report|0.5|0|smtp-in|link-connect|ID||pass|1.2.3.200:33174|1.1.1.1:25'' initialState
        = linkConnect ?cfg noHits ''link-connect'' ''ID'' ?params ?st"
    by (simp add: handleLine_def trigger_def reporters_def)
  then show ?thesis by (simp only: l) simp
qed

text \<open>
  Claim C2, as the code has it. A link-connect event with four parameters never fails,
  whether or not the table holds a session under its id: the handler returns, and the
  table then holds under the id a session created anew (first line pending, no delay),
  the same session and the same effects as when the id was absent. The session that
  was there is replaced.
\<close>

theorem C2_link_connect_replaces:
  assumes "length params = 4"
  shows "\<exists>s effs. first_line s \<and> delay s = 0 \<and>
           linkConnect cfg resolve phase sid params (st\<lparr>sessions := (sessions st)(sid \<mapsto> old)\<rparr>)
             = Inr (putSession st sid s, effs) \<and>
           linkConnect cfg resolve phase sid params (st\<lparr>sessions := (sessions st)(sid := None)\<rparr>)
             = Inr (putSession st sid s, effs)"
proof -
  obtain s effs where s: "first_line s" "delay s = 0"
    and r: "\<And>st. linkConnect cfg resolve phase sid params st = Inr (putSession st sid s, effs)"
    using linkConnect_form [OF assms] by blast
  have "putSession (st\<lparr>sessions := (sessions st)(sid := None)\<rparr>) sid s = putSession st sid s"
    by (simp add: putSession_def)
  then show ?thesis using s r putSession_overwrites by metis
qed

theorem C2_link_connect_replaces_witness:
  "\<exists>s effs. first_line s \<and> delay s = 0 \<and>
     linkConnect ((defaultConfig [''dnsbl.example''])\<lparr>testMode := True\<rparr>) noHits ''link-connect'' ''ID''
         ['''', ''pass'', ''1.2.3.4:33174'', ''1.1.1.1:25'']
         (initialState\<lparr>sessions := (sessions initialState)(''ID'' \<mapsto> newSession\<lparr>score := 9\<rparr>)\<rparr>)
       = Inr (putSession initialState ''ID'' s, effs) \<and>
     linkConnect ((defaultConfig [''dnsbl.example''])\<lparr>testMode := True\<rparr>) noHits ''link-connect'' ''ID''
         ['''', ''pass'', ''1.2.3.4:33174'', ''1.1.1.1:25'']
         (initialState\<lparr>sessions := (sessions initialState)(''ID'' := None)\<rparr>)
       = Inr (putSession initialState ''ID'' s, effs)"
proof -
  have h: "length ['''', ''pass'', ''1.2.3.4:33174'', ''1.1.1.1:25''] = 4" by simp
  show ?thesis by (rule C2_link_connect_replaces [OF h])
qed

text \<open>
  Claim C2 as stated fails: a link-connect line for an id that the table already holds
  does not end the process. The handler returns, and the session under the id (score 9,
  delay 5, first line seen) has been replaced by a new one with the score of the
  address.
\<close>

theorem C2_counterexample:
  "sessionOf (handleLine ((defaultConfig [''dnsbl.example''])\<lparr>testMode := True\<rparr>) noHits
      ''report|0.5|0|smtp-in|link-connect|ID||pass|1.2.3.4:33174|1.1.1.1:25''
      (putSession initialState ''ID'' (newSession\<lparr>score := 9, delay := 5, first_line := False\<rparr>))) ''ID''
     = Some (newSession\<lparr>score := 4\<rparr>)"
proof -
  let ?cfg = "(defaultConfig [''dnsbl.example''])\<lparr>testMode := True\<rparr>"
  let ?params = "['''', ''pass'', ''1.2.3.4:33174'', ''1.1.1.1:25'']"
  let ?st = "(putSession initialState ''ID'' (newSession\<lparr>score := 9, delay := 5, first_line := False\<rparr>))
               \<lparr>version := ''0.5''\<rparr>"
  have h3: "ParseIP (Split (?params ! 2) (CHR '':'') ! 0) = Some (IPv4 1 2 3 4)"
    by (simp add: parse_eval)
  have h4: "\<not> allowlisted (allowlist ?cfg) (IPv4 1 2 3 4) (allowlistMasks ?cfg)"
    by (simp add: defaultConfig_def)
  have l: "linkConnect ?cfg noHits ''link-connect'' ''ID'' ?params ?st
        = Inr (putSession ?st ''ID'' (newSession\<lparr>score := 4\<rparr>), [])"
    using linkConnect_testMode [OF _ h3 h4, of noHits "''link-connect''" "''ID''" ?st]
    by (simp add: defaultConfig_def)
  have "handleLine ?cfg noHits
      ''report|0.5|0|smtp-in|link-connect|ID||pass|1.2.3.4:33174|1.1.1.1:25''
      (putSession initialState ''ID'' (newSession\<lparr>score := 9, delay := 5, first_line := False\<rparr>))
        = linkConnect ?cfg noHits ''link-connect'' ''ID'' ?params ?st"
    by (simp add: handleLine_def trigger_def reporters_def)
  then show ?thesis by (simp only: l) simp
qed

text \<open>
  Claim C3, as the code has it. The header is sent once per session, not once per
  message. For a session with a known score and with the score header enabled, a
  body line is answered with two lines, the header and then the line, when the
  session's \<^verbatim>\<open>first_line\<close> is still set, and that clears it; it is answered with the line
  alone when \<^verbatim>\<open>first_line\<close> is cleared, and the state stays as it is. The handlers of
  the other filter phases leave \<^verbatim>\<open>first_line\<close> as it is: once cleared it stays cleared
  until link-connect creates the session anew.
\<close>

theorem C3_header_once_per_session:
  assumes "sessions st sid = Some s" and "score s \<noteq> - 1" and "scoreHeader cfg"
    and "params \<noteq> []" and "CHR ''.'' \<in> set (version st)"
  shows "dataline cfg phase sid params st
           = (if first_line s
              then Inr (putSession st sid (s\<lparr>first_line := False\<rparr>),
                        [Output (outputLine (Split (version st) (CHR ''.'')) ''filter-dataline'' sid
                                   (params ! 0) (''X-DNSBL-Score: '' @ itoa (sint (score s)))),
                         Output (outputLine (Split (version st) (CHR ''.'')) ''filter-dataline'' sid
                                   (params ! 0) (Join (tl params) ''|''))])
              else Inr (st,
                        [Output (outputLine (Split (version st) (CHR ''.'')) ''filter-dataline'' sid
                                   (params ! 0) (Join (tl params) ''|''))]))
         \<and> (\<forall>st' effs. delayedAnswer cfg phase sid params st = Inr (st', effs)
                \<or> filterConnect cfg phase sid params st = Inr (st', effs)
              \<longrightarrow> map_option first_line (sessions st' sid) = Some (first_line s))"
proof -
  have d: "\<And>st' effs. delayedAnswer cfg phase sid params st = Inr (st', effs)
             \<Longrightarrow> map_option first_line (sessions st' sid) = Some (first_line s)"
    using assms(1) delayed_state by (fastforce simp: delayedAnswer_verdict)
  have f: "\<And>st' effs. filterConnect cfg phase sid params st = Inr (st', effs)
             \<Longrightarrow> map_option first_line (sessions st' sid) = Some (first_line s)"
  proof -
    fix st' effs
    assume r: "filterConnect cfg phase sid params st = Inr (st', effs)"
    then have "\<not> (0 < sint (slowFactor cfg) \<and> 0 < sint (score s) \<and> domains cfg = [])"
      using assms(1) by (auto simp: filterConnect_def)
    then have "st' = putSession st sid (s\<lparr>delay := slowDelay cfg s\<rparr>)"
      using r assms(1) delayed_state by (fastforce simp: filterConnect_verdict)
    then show "map_option first_line (sessions st' sid) = Some (first_line s)" by simp
  qed
  show ?thesis using assms d f by (auto simp: dataline_returns)
qed

theorem C3_header_once_per_session_witness:
  "dataline ((defaultConfig [''dnsbl.example''])\<lparr>scoreHeader := True\<rparr>) ''data-line'' ''ID''
       [''TOK'', ''Subject: one'']
       (putSession (initialState\<lparr>version := ''0.7''\<rparr>) ''ID'' (newSession\<lparr>score := 4\<rparr>))
     = Inr (putSession (putSession (initialState\<lparr>version := ''0.7''\<rparr>) ''ID'' (newSession\<lparr>score := 4\<rparr>))
              ''ID'' (newSession\<lparr>score := 4, first_line := False\<rparr>),
            [Output ''filter-dataline|ID|TOK|X-DNSBL-Score: 4'',
             Output ''filter-dataline|ID|TOK|Subject: one''])"
proof -
  let ?cfg = "(defaultConfig [''dnsbl.example''])\<lparr>scoreHeader := True\<rparr>"
  let ?st = "putSession (initialState\<lparr>version := ''0.7''\<rparr>) ''ID'' (newSession\<lparr>score := 4\<rparr>)"
  have h1: "sessions ?st ''ID'' = Some (newSession\<lparr>score := 4\<rparr>)" by simp
  have h2: "score (newSession\<lparr>score := 4\<rparr>) \<noteq> - 1" by simp
  have h3: "scoreHeader ?cfg" by (simp add: defaultConfig_def)
  have h4: "[''TOK'', ''Subject: one''] \<noteq> []" by simp
  have h5: "CHR ''.'' \<in> set (version ?st)" by (simp add: initialState_def)
  have o: "outputLine (Split (version ?st) (CHR ''.'')) ''filter-dataline'' ''ID'' ''TOK''
             (''X-DNSBL-Score: '' @ itoa (sint (score (newSession\<lparr>score := 4\<rparr>))))
           = ''filter-dataline|ID|TOK|X-DNSBL-Score: 4''"
      "outputLine (Split (version ?st) (CHR ''.'')) ''filter-dataline'' ''ID'' ''TOK'' ''Subject: one''
           = ''filter-dataline|ID|TOK|Subject: one''"
    by (simp_all add: eval_defs utoa.simps)
  show ?thesis
    using C3_header_once_per_session [OF h1 h2 h3 h4 h5, of "''data-line''"] o
    by (simp add: newSession_def)
qed

text \<open>
  Claim C3 as stated fails for the second message of a session: in a session with the
  score 4 and the score header enabled, the first body line of the first message is
  answered with the header and the line, the first body line of the second message
  with the line alone.
\<close>

theorem C3_counterexample:
  "fst (run ((defaultConfig [''dnsbl.example''])\<lparr>testMode := True, scoreHeader := True\<rparr>) noHits
     [''report|0.7|0|smtp-in|link-connect|ID||pass|1.2.3.4:33174|1.1.1.1:25'',
      ''filter|0.7|0|smtp-in|data|ID|TOK'',
      ''filter|0.7|0|smtp-in|data-line|ID|TOK|Subject: one'',
      ''filter|0.7|0|smtp-in|data-line|ID|TOK|.'',
      ''filter|0.7|0|smtp-in|commit|ID|TOK'',
      ''filter|0.7|0|smtp-in|data|ID|TOK'',
      ''filter|0.7|0|smtp-in|data-line|ID|TOK|Subject: two'',
      ''filter|0.7|0|smtp-in|data-line|ID|TOK|.'']
     initialState)
   = [Output ''filter-result|ID|TOK|proceed'',
      Output ''filter-dataline|ID|TOK|X-DNSBL-Score: 4'',
      Output ''filter-dataline|ID|TOK|Subject: one'',
      Output ''filter-dataline|ID|TOK|.'',
      Output ''filter-result|ID|TOK|proceed'',
      Output ''filter-result|ID|TOK|proceed'',
      Output ''filter-dataline|ID|TOK|Subject: two'',
      Output ''filter-dataline|ID|TOK|.'']"
  by (simp add: eval_defs utoa.simps)

text \<open>
  Claim C4, as the code has it. Let the allowlist be loaded from IPv4 entries, \<open>p/n\<close>
  among them, without a fatal error. For every connecting address that parses as an
  IPv4 address \<open>a\<close> and that, masked to \<open>n\<close> bits, equals \<open>p\<close> masked to \<open>n\<close> bits, the
  session gets the score 0 and no lookup is made, whatever the resolver, the mode and
  the other flags are. An address that does not parse as IPv4 keeps the unknown score
  (claim C6) whatever the allowlist holds.
\<close>

theorem C4_allowlisted_score_zero:
  assumes "loadAllowlists entries cfg0 = Inr cfg"
    and "length params = 4"
    and "ParseIP (Split (params ! 2) (CHR '':'') ! 0) = Some a"
    and "(p, n) \<in> set entries"
    and "Mask a (CIDRMask n 32) = Mask p (CIDRMask n 32)"
  shows "linkConnect cfg resolve phase sid params st
           = Inr (putSession st sid (newSession\<lparr>score := 0\<rparr>), [])"
proof -
  have "n \<in> set (allowlistMasks cfg)
        \<and> String (Mask p (CIDRMask n 32)) @ ''/'' @ itoa n \<in> allowlist cfg"
    using loadAllowlists_holds [OF assms(1,4)] by simp
  then have "allowlisted (allowlist cfg) a (allowlistMasks cfg)"
    unfolding allowlisted_iff using assms(5) by (intro bexI [of _ n]) simp_all
  then show ?thesis using assms(2,3) by (rule linkConnect_allowlisted [rotated 2])
qed

theorem C4_allowlisted_score_zero_witness:
  "linkConnect ((defaultConfig [''dnsbl.example''])
                  \<lparr>allowlistMasks := [20], allowlist := {''10.1.240.0/20''}\<rparr>) noHits
       ''link-connect'' ''ID'' ['''', ''pass'', ''10.1.255.7:33174'', ''1.1.1.1:25''] initialState
     = Inr (putSession initialState ''ID'' (newSession\<lparr>score := 0\<rparr>), [])"
proof -
  let ?params = "['''', ''pass'', ''10.1.255.7:33174'', ''1.1.1.1:25'']"
  have m: "Mask (IPv4 10 1 240 0) (CIDRMask 20 32) = Some (IPv4 10 1 240 0)"
    by (simp add: CIDRMask_def cidrBytes_unfold)
  have h0: "loadAllowlists [(IPv4 10 1 240 0, 20)] (defaultConfig [''dnsbl.example''])
             = Inr ((defaultConfig [''dnsbl.example''])
                      \<lparr>allowlistMasks := [20], allowlist := {''10.1.240.0/20''}\<rparr>)"
    by (simp add: addSubnet_def m ubtoa_def digitChar_def digit_chars itoa_def utoa.simps
          defaultConfig_def)
  have h1: "length ?params = 4" by simp
  have h2: "ParseIP (Split (?params ! 2) (CHR '':'') ! 0) = Some (IPv4 10 1 255 7)"
    by (simp add: parse_eval)
  have h3: "(IPv4 10 1 240 0, 20) \<in> set [(IPv4 10 1 240 0, 20 :: int)]" by simp
  have h4: "Mask (IPv4 10 1 255 7) (CIDRMask 20 32) = Mask (IPv4 10 1 240 0) (CIDRMask 20 32)"
    by (simp add: CIDRMask_def cidrBytes_unfold)
  show ?thesis by (rule C4_allowlisted_score_zero [OF h0 h1 h2 h3 h4])
qed

text \<open>
  Claim C4 as stated fails for an address that is not IPv4. With the entry \<open>::1/128\<close> in
  the allowlist file, \<^verbatim>\<open>loadAllowlists\<close> stores the key \<^verbatim>\<open>::1/128\<close> and the mask length 128.
  A connection from \<open>[::1]:33174\<close> is an address inside that prefix, and its session
  keeps the unknown score: the text before the first colon does not parse, and
  \<^verbatim>\<open>linkConnect\<close> returns before it looks at the allowlist.
\<close>

theorem C4_counterexample:
  "scoreOf (handleLine ((defaultConfig [''dnsbl.example''])
                          \<lparr>allowlist := {''::1/128''}, allowlistMasks := [128]\<rparr>) noHits
      ''report|0.5|0|smtp-in|link-connect|ID|localhost|pass|[::1]:33174|[::1]:25'' initialState) ''ID''
     = Some (- 1)"
  by (simp add: handleLine_def trigger_def reporters_def linkConnect_def ParseIP_def
        putSession_def newSession_def scoreOf_def sessionOf_def)

text \<open>
  Claim C5. Both comparisons are strict. The configuration has at least one domain,
  as \<^verbatim>\<open>main\<close> demands. For a session whose score equals the block threshold, no
  handler of a verdict phase takes the disconnect branch, at the block phase or
  elsewhere: \<^verbatim>\<open>delayedAnswer\<close> passes \<^verbatim>\<open>proceed\<close> on, and \<^verbatim>\<open>filterConnect\<close> passes
  \<^verbatim>\<open>junk\<close> or \<^verbatim>\<open>proceed\<close> on. For a session whose score equals the junk threshold,
  \<^verbatim>\<open>filterConnect\<close> does not take the junk branch: it passes \<^verbatim>\<open>disconnect\<close> or \<^verbatim>\<open>proceed\<close> on.
\<close>

theorem C5_strict_thresholds:
  assumes "sessions st sid = Some s" and "domains cfg \<noteq> []"
  shows "(sint (score s) = sint (blockAbove cfg) \<longrightarrow>
            delayedAnswer cfg phase sid params st = delayed cfg ''proceed'' sid params st
            \<and> filterConnect cfg phase sid params st
                = delayed cfg (if junks cfg s then ''junk'' else ''proceed'') sid params
                    (putSession st sid (s\<lparr>delay := slowDelay cfg s\<rparr>)))
         \<and> (sint (score s) = sint (junkAbove cfg) \<longrightarrow>
            filterConnect cfg phase sid params st
                = delayed cfg (if blocks cfg s ''connect''
                           then ''disconnect|550 your IP reputation is too low for this MX''
                           else ''proceed'') sid params
                    (putSession st sid (s\<lparr>delay := slowDelay cfg s\<rparr>)))"
  using assms
  by (simp add: delayedAnswer_verdict filterConnect_verdict not_blocks_at_threshold
        not_junks_at_threshold)

theorem C5_strict_thresholds_witness:
  "delayedAnswer ((defaultConfig [''dnsbl.example''])\<lparr>testMode := True, blockAbove := 3, blockPhase := ''helo''\<rparr>)
       ''helo'' ''ID'' [''TOK'', ''mail.example'']
       (putSession (initialState\<lparr>version := ''0.7''\<rparr>) ''ID'' (newSession\<lparr>score := 3\<rparr>))
     = Inr (putSession (initialState\<lparr>version := ''0.7''\<rparr>) ''ID'' (newSession\<lparr>score := 3\<rparr>),
            [Output ''filter-result|ID|TOK|proceed''])"
proof -
  let ?cfg = "(defaultConfig [''dnsbl.example''])\<lparr>testMode := True, blockAbove := 3, blockPhase := ''helo''\<rparr>"
  let ?st = "putSession (initialState\<lparr>version := ''0.7''\<rparr>) ''ID'' (newSession\<lparr>score := 3\<rparr>)"
  have h1: "sessions ?st ''ID'' = Some (newSession\<lparr>score := 3\<rparr>)" by simp
  have h2: "domains ?cfg \<noteq> []" by (simp add: defaultConfig_def)
  have h3: "sint (score (newSession\<lparr>score := 3\<rparr>)) = sint (blockAbove ?cfg)" by simp
  have d: "delayed ?cfg ''proceed'' ''ID'' [''TOK'', ''mail.example''] ?st
             = Inr (?st, [Output ''filter-result|ID|TOK|proceed''])"
    by (simp add: eval_defs)
  show ?thesis
    using C5_strict_thresholds [OF h1 h2, of "''helo''" "[''TOK'', ''mail.example'']"] h3 d
    by simp
qed

text \<open>
  Claim C6. For a session with the unknown score, the handler of every filter phase
  that gives a verdict passes \<^verbatim>\<open>proceed\<close> on, whatever the thresholds and the block phase
  are (at connect the delay is set to 0 first); a body line of such a session is
  answered with the line alone, a \<^verbatim>\<open>filter-dataline\<close> response. A link-connect whose
  address field has no IPv4 address before its first colon leaves the score unknown and
  makes no lookup: that is so when the text there does not parse, and in particular
  when it has no dot, as the text before the first colon of any IPv6 address.
\<close>

theorem C6_unknown_score_proceeds:
  "(sessions st sid = Some s \<and> score s = - 1 \<and> filters cfg phase = Some h
      \<and> phase \<noteq> ''data-line''
      \<longrightarrow> h phase sid params st
            = delayed cfg ''proceed'' sid params
                (if phase = ''connect'' then putSession st sid (s\<lparr>delay := 0\<rparr>) else st))
   \<and> (sessions st sid = Some s \<and> score s = - 1 \<and> params \<noteq> [] \<and> CHR ''.'' \<in> set (version st)
      \<longrightarrow> effectsOf (dataline cfg phase sid params st)
            = Some [Output (outputLine (Split (version st) (CHR ''.'')) ''filter-dataline'' sid
                              (params ! 0) (Join (tl params) ''|''))])
   \<and> (length ps = 4
        \<and> (CHR ''.'' \<notin> set (Split (ps ! 2) (CHR '':'') ! 0)
             \<or> ParseIP (Split (ps ! 2) (CHR '':'') ! 0) = None)
      \<longrightarrow> linkConnect cfg resolve ph sid ps stc = Inr (putSession stc sid newSession, [])
          \<and> score newSession = - 1)"
proof (intro conjI impI)
  assume a: "sessions st sid = Some s \<and> score s = - 1 \<and> filters cfg phase = Some h
               \<and> phase \<noteq> ''data-line''"
  then have nb: "\<And>p. \<not> blocks cfg s p" and nj: "\<not> junks cfg s"
    by (simp_all add: blocks_def junks_def)
  have np: "\<not> (0 < sint (slowFactor cfg) \<and> 0 < sint (score s) \<and> domains cfg = [])"
    using a by simp
  from a filters_cases [of cfg phase h]
  consider "phase = ''connect''" "h = filterConnect cfg"
    | "phase \<noteq> ''connect''" "h = delayedAnswer cfg" by blast
  then show "h phase sid params st
            = delayed cfg ''proceed'' sid params
                (if phase = ''connect'' then putSession st sid (s\<lparr>delay := 0\<rparr>) else st)"
  proof cases
    case 1
    then show ?thesis
      using a nb nj filterConnect_verdict [OF _ np, of st sid phase params]
      by (simp add: slowDelay_unknown)
  next
    case 2
    then show ?thesis using a nb by (simp add: delayedAnswer_verdict)
  qed
next
  assume "sessions st sid = Some s \<and> score s = - 1 \<and> params \<noteq> [] \<and> CHR ''.'' \<in> set (version st)"
  then show "effectsOf (dataline cfg phase sid params st)
            = Some [Output (outputLine (Split (version st) (CHR ''.'')) ''filter-dataline'' sid
                              (params ! 0) (Join (tl params) ''|''))]"
    by (simp add: dataline_returns)
next
  assume a: "length ps = 4
        \<and> (CHR ''.'' \<notin> set (Split (ps ! 2) (CHR '':'') ! 0)
             \<or> ParseIP (Split (ps ! 2) (CHR '':'') ! 0) = None)"
  then have "ParseIP (Split (ps ! 2) (CHR '':'') ! 0) = None"
    using ParseIP_no_dot by blast
  then show "linkConnect cfg resolve ph sid ps stc = Inr (putSession stc sid newSession, [])"
    using a by (simp add: linkConnect_unparsed)
next
  show "score newSession = - 1" by (simp add: newSession_def)
qed

theorem C6_unknown_score_proceeds_witness:
  "filterConnect ((defaultConfig [''dnsbl.example''])\<lparr>blockAbove := 0, junkAbove := 0, slowFactor := 1000\<rparr>)
       ''connect'' ''ID'' [''TOK'', ''localhost'']
       (putSession (initialState\<lparr>version := ''0.7''\<rparr>) ''ID'' newSession)
     = Inr (putSession (initialState\<lparr>version := ''0.7''\<rparr>) ''ID'' newSession,
            [Go (WaitThenAction ''ID'' ''TOK'' 0 ''proceed'')])
   \<and> linkConnect ((defaultConfig [''dnsbl.example''])\<lparr>blockAbove := 0, junkAbove := 0, slowFactor := 1000\<rparr>)
       noHits ''link-connect'' ''ID'' [''localhost'', ''pass'', ''[2001:db8::1]:33174'', ''[::1]:25'']
       (initialState\<lparr>version := ''0.7''\<rparr>)
     = Inr (putSession (initialState\<lparr>version := ''0.7''\<rparr>) ''ID'' newSession, [])"
proof -
  let ?cfg = "(defaultConfig [''dnsbl.example''])\<lparr>blockAbove := 0, junkAbove := 0, slowFactor := 1000\<rparr>"
  let ?ini = "initialState\<lparr>version := ''0.7''\<rparr>"
  let ?st = "putSession ?ini ''ID'' newSession"
  let ?ps = "[''localhost'', ''pass'', ''[2001:db8::1]:33174'', ''[::1]:25'']"
  have h1: "sessions ?st ''ID'' = Some newSession \<and> score newSession = - 1
            \<and> filters ?cfg ''connect'' = Some (filterConnect ?cfg) \<and> ''connect'' \<noteq> ''data-line''"
    by (simp add: newSession_def filters_def)
  have h2: "length ?ps = 4 \<and> (CHR ''.'' \<notin> set (Split (?ps ! 2) (CHR '':'') ! 0)
             \<or> ParseIP (Split (?ps ! 2) (CHR '':'') ! 0) = None)"
    by simp
  have p: "putSession ?st ''ID'' (newSession\<lparr>delay := 0\<rparr>) = ?st"
    by (simp add: putSession_def newSession_def)
  have d: "delayed ?cfg ''proceed'' ''ID'' [''TOK'', ''localhost''] ?st
             = Inr (?st, [Go (WaitThenAction ''ID'' ''TOK'' 0 ''proceed'')])"
    by (simp add: eval_defs)
  show ?thesis
    using C6_unknown_score_proceeds [where st = ?st and sid = "''ID''" and s = newSession
        and cfg = ?cfg and phase = "''connect''" and h = "filterConnect ?cfg"
        and params = "[''TOK'', ''localhost'']" and ps = ?ps and resolve = noHits
        and ph = "''link-connect''" and stc = ?ini] h1 h2 p d
    by simp
qed

text \<open>
  Claim C7. The configuration has at least one domain, as \<^verbatim>\<open>main\<close> demands. For a
  session and a filter phase that gives a verdict and is not the block phase, the
  handler never takes the disconnect branch, however far the score lies
  above the block threshold: at connect it passes \<^verbatim>\<open>junk\<close> on when the junk threshold is
  enabled and exceeded and \<^verbatim>\<open>proceed\<close> otherwise, at every other phase it passes
  \<^verbatim>\<open>proceed\<close> on. (A body line is answered by \<^verbatim>\<open>filter-dataline\<close> responses, which carry no
  verdict.)
\<close>

theorem C7_block_only_at_block_phase:
  assumes "sessions st sid = Some s" and "domains cfg \<noteq> []"
    and "filters cfg phase = Some h" and "phase \<noteq> ''data-line''"
    and "blockPhase cfg \<noteq> phase"
  shows "h phase sid params st
           = delayed cfg (if phase = ''connect'' \<and> junks cfg s then ''junk'' else ''proceed'') sid params
               (if phase = ''connect'' then putSession st sid (s\<lparr>delay := slowDelay cfg s\<rparr>) else st)"
proof -
  have nb: "\<not> blocks cfg s phase" using assms(5) by (simp add: blocks_def)
  from assms(3,4) filters_cases [of cfg phase h]
  consider "phase = ''connect''" "h = filterConnect cfg"
    | "phase \<noteq> ''connect''" "h = delayedAnswer cfg" by blast
  then show ?thesis
  proof cases
    case 1
    then show ?thesis using assms(1,2) nb by (simp add: filterConnect_verdict)
  next
    case 2
    then show ?thesis using assms(1) nb by (simp add: delayedAnswer_verdict)
  qed
qed

theorem C7_block_only_at_block_phase_witness:
  "delayedAnswer ((defaultConfig [''dnsbl.example''])\<lparr>testMode := True, blockAbove := 1, blockPhase := ''helo''\<rparr>)
       ''mail-from'' ''ID'' [''TOK'', ''a@mail.example'']
       (putSession (initialState\<lparr>version := ''0.7''\<rparr>) ''ID'' (newSession\<lparr>score := 9\<rparr>))
     = Inr (putSession (initialState\<lparr>version := ''0.7''\<rparr>) ''ID'' (newSession\<lparr>score := 9\<rparr>),
            [Output ''filter-result|ID|TOK|proceed''])"
proof -
  let ?cfg = "(defaultConfig [''dnsbl.example''])\<lparr>testMode := True, blockAbove := 1, blockPhase := ''helo''\<rparr>"
  let ?st = "putSession (initialState\<lparr>version := ''0.7''\<rparr>) ''ID'' (newSession\<lparr>score := 9\<rparr>)"
  have h1: "sessions ?st ''ID'' = Some (newSession\<lparr>score := 9\<rparr>)" by simp
  have h2: "domains ?cfg \<noteq> []" by (simp add: defaultConfig_def)
  have h3: "filters ?cfg ''mail-from'' = Some (delayedAnswer ?cfg)" by (simp add: filters_def)
  have h4: "''mail-from'' \<noteq> ''data-line''" by simp
  have h5: "blockPhase ?cfg \<noteq> ''mail-from''" by simp
  have d: "delayed ?cfg ''proceed'' ''ID'' [''TOK'', ''a@mail.example''] ?st
             = Inr (?st, [Output ''filter-result|ID|TOK|proceed''])"
    by (simp add: eval_defs)
  show ?thesis
    using C7_block_only_at_block_phase [OF h1 h2 h3 h4 h5, of "[''TOK'', ''a@mail.example'']"] d
    by simp
qed

text \<open>
  Claim C8, as the code has it. For a session of a well-formed connect event (the
  session exists, the event has a token, the version has a dot, there is a domain), let
  \<open>q\<close> be \<open>slowFactor * score div domains\<close>, rounded down, when the slow factor and the
  score are positive, and 0 otherwise. If the product \<open>slowFactor * score\<close> fits the
  64-bit \<^verbatim>\<open>int\<close> (it stays below \<open>2 ^ 63\<close>) and \<open>q\<close> milliseconds fit a \<^verbatim>\<open>Duration\<close> (\<open>q\<close>
  times \<open>1000000\<close> nanoseconds stay below \<open>2 ^ 63\<close>), then \<^verbatim>\<open>filterConnect\<close> stores the
  delay \<open>q\<close> in the session, and the answer to this event and to every later event of the
  session waits \<open>q\<close> milliseconds, with no pause at all for \<open>q = 0\<close>. In test mode the
  handler pauses and then writes the line; outside test mode it starts a goroutine with
  the delay \<open>q\<close>, and the goroutine pauses that long before it writes its line.
\<close>

theorem C8_delay:
  assumes "sessions st sid = Some s" and "params \<noteq> []" and "CHR ''.'' \<in> set (version st)"
    and "domains cfg \<noteq> []" and "length (domains cfg) < 2 ^ 63"
    and "q = (if 0 < sint (slowFactor cfg) \<and> 0 < sint (score s)
              then sint (slowFactor cfg) * sint (score s) div int (length (domains cfg))
              else 0)"
    and "0 < sint (slowFactor cfg) \<and> 0 < sint (score s)
           \<longrightarrow> sint (slowFactor cfg) * sint (score s) < 2 ^ 63"
    and "q * 1000000 < 2 ^ 63"
  shows "sessionOf (filterConnect cfg phase sid params st) sid = Some (s\<lparr>delay := word_of_int q\<rparr>)
     \<and> delayOf (filterConnect cfg phase sid params st) sid = Some q
     \<and> (\<exists>verdict line. effectsOf (filterConnect cfg phase sid params st)
           = Some (if testMode cfg
                   then (if 0 < q then [Sleep (word_of_int (q * 1000000))] else []) @ [Output line]
                   else [Go (WaitThenAction sid (params ! 0) (word_of_int q) verdict)]))
     \<and> (\<forall>ph ps. ps \<noteq> [] \<longrightarrow>
          (\<exists>verdict line.
             effectsOf (delayedAnswer cfg ph sid ps (putSession st sid (s\<lparr>delay := word_of_int q\<rparr>)))
               = Some (if testMode cfg
                       then (if 0 < q then [Sleep (word_of_int (q * 1000000))] else []) @ [Output line]
                       else [Go (WaitThenAction sid (ps ! 0) (word_of_int q) verdict)])))
     \<and> (\<forall>st' tok verdict. CHR ''.'' \<in> set (version st') \<longrightarrow>
          (\<exists>line. resume st' (WaitThenAction sid tok (word_of_int q) verdict)
             = Inr (st', (if 0 < q then [Sleep (word_of_int (q * 1000000))] else [])
                         @ [Output line])))"
proof -
  let ?w = "if 0 < q then [Sleep (word_of_int (q * 1000000))] else []"
  let ?s1 = "s\<lparr>delay := word_of_int q\<rparr>"
  let ?st1 = "putSession st sid ?s1"
  have np: "\<not> (0 < sint (slowFactor cfg) \<and> 0 < sint (score s) \<and> domains cfg = [])"
    using assms(4) by simp
  have q0: "0 \<le> q"
  proof (cases "0 < sint (slowFactor cfg) \<and> 0 < sint (score s)")
    case True
    then have "0 \<le> sint (slowFactor cfg) * sint (score s)" by simp
    then have "0 \<le> sint (slowFactor cfg) * sint (score s) div int (length (domains cfg))"
      by (rule pos_imp_zdiv_nonneg_iff [THEN iffD2, rotated]) (use assms(4) in simp)
    then show ?thesis using True assms(6) by simp
  next
    case False
    then show ?thesis using assms(6) by auto
  qed
  have sd: "slowDelay cfg s = word_of_int q"
  proof (cases "0 < sint (slowFactor cfg) \<and> 0 < sint (score s)")
    case True
    then have "sint (slowDelay cfg s) = q"
      using slowDelay_value [OF _ _ _ assms(4,5), of s] assms(6,7) by simp
    then have "word_of_int (sint (slowDelay cfg s)) = (word_of_int q :: go_int)" by simp
    then show ?thesis by simp
  next
    case False
    then have "slowDelay cfg s = 0" by (intro slowDelay_disabled) auto
    moreover have "q = 0" using False assms(6) by auto
    ultimately show ?thesis by simp
  qed
  have w: "sleepEffects (word_of_int q) = ?w"
    using q0 assms(8) by (rule sleepEffects_value)
  have s1: "sessions ?st1 sid = Some ?s1" by simp
  have v1: "CHR ''.'' \<in> set (version ?st1)" using assms(3) by simp
  let ?v = "if blocks cfg s ''connect''
            then ''disconnect|550 your IP reputation is too low for this MX''
            else if junks cfg s then ''junk'' else ''proceed''"
  have f: "filterConnect cfg phase sid params st
             = Inr (?st1, if testMode cfg
                          then ?w @ [Output (outputLine (Split (version st) (CHR ''.''))
                                               ''filter-result'' sid (params ! 0) ?v)]
                          else [Go (WaitThenAction sid (params ! 0) (word_of_int q) ?v)])"
    using delayed_returns [OF s1 assms(2) v1, of cfg ?v]
    by (simp add: filterConnect_verdict [OF assms(1) np] sd w)
  have 1: "sessionOf (filterConnect cfg phase sid params st) sid = Some ?s1"
    unfolding f by simp
  have "sint (word_of_int q :: go_int) = q"
    using q0 assms(8) by (intro sint_go_int_of_int) simp_all
  then have 0: "delayOf (filterConnect cfg phase sid params st) sid = Some q"
    unfolding delayOf_def 1 by simp
  have 2: "\<exists>verdict line. effectsOf (filterConnect cfg phase sid params st)
           = Some (if testMode cfg then ?w @ [Output line]
                   else [Go (WaitThenAction sid (params ! 0) (word_of_int q) verdict)])"
    unfolding f by (cases "testMode cfg") auto
  have 3: "\<forall>ph ps. ps \<noteq> [] \<longrightarrow>
          (\<exists>verdict line. effectsOf (delayedAnswer cfg ph sid ps ?st1)
               = Some (if testMode cfg then ?w @ [Output line]
                       else [Go (WaitThenAction sid (ps ! 0) (word_of_int q) verdict)]))"
  proof (intro allI impI)
    fix ph ps
    assume ps: "ps \<noteq> ([] :: string list)"
    let ?u = "if blocks cfg ?s1 ph
              then ''disconnect|550 your IP reputation is too low for this MX''
              else ''proceed''"
    have "delayedAnswer cfg ph sid ps ?st1
            = Inr (?st1, if testMode cfg
                         then ?w @ [Output (outputLine (Split (version st) (CHR ''.''))
                                              ''filter-result'' sid (ps ! 0) ?u)]
                         else [Go (WaitThenAction sid (ps ! 0) (word_of_int q) ?u)])"
      using delayed_returns [OF s1 ps v1, of cfg ?u]
      by (simp add: delayedAnswer_verdict [OF s1] w)
    then show "\<exists>verdict line. effectsOf (delayedAnswer cfg ph sid ps ?st1)
               = Some (if testMode cfg then ?w @ [Output line]
                       else [Go (WaitThenAction sid (ps ! 0) (word_of_int q) verdict)])"
      by (cases "testMode cfg") auto
  qed
  have 4: "\<forall>st' tok verdict. CHR ''.'' \<in> set (version st') \<longrightarrow>
          (\<exists>line. resume st' (WaitThenAction sid tok (word_of_int q) verdict)
             = Inr (st', ?w @ [Output line]))"
    by (simp add: waitThenAction_dot w)
  show ?thesis by (intro conjI 1 0 2 3 4)
qed

theorem C8_delay_witness:
  "sessionOf (filterConnect ((defaultConfig [''dnsbl.example'', ''bl.example''])\<lparr>slowFactor := 1001\<rparr>)
       ''connect'' ''ID'' [''TOK'', ''localhost'']
       (putSession (initialState\<lparr>version := ''0.7''\<rparr>) ''ID'' (newSession\<lparr>score := 1\<rparr>))) ''ID''
     = Some (newSession\<lparr>score := 1, delay := 500\<rparr>)
   \<and> delayOf (filterConnect ((defaultConfig [''dnsbl.example'', ''bl.example''])\<lparr>slowFactor := 1001\<rparr>)
       ''connect'' ''ID'' [''TOK'', ''localhost'']
       (putSession (initialState\<lparr>version := ''0.7''\<rparr>) ''ID'' (newSession\<lparr>score := 1\<rparr>))) ''ID''
     = Some 500
   \<and> (\<exists>verdict. effectsOf (filterConnect
           ((defaultConfig [''dnsbl.example'', ''bl.example''])\<lparr>slowFactor := 1001\<rparr>)
           ''connect'' ''ID'' [''TOK'', ''localhost'']
           (putSession (initialState\<lparr>version := ''0.7''\<rparr>) ''ID'' (newSession\<lparr>score := 1\<rparr>)))
         = Some [Go (WaitThenAction ''ID'' ''TOK'' 500 verdict)])
   \<and> (\<exists>line. resume (initialState\<lparr>version := ''0.7''\<rparr>) (WaitThenAction ''ID'' ''TOK'' 500 ''proceed'')
         = Inr (initialState\<lparr>version := ''0.7''\<rparr>, [Sleep 500000000, Output line]))"
proof -
  let ?cfg = "(defaultConfig [''dnsbl.example'', ''bl.example''])\<lparr>slowFactor := 1001\<rparr>"
  let ?s = "newSession\<lparr>score := 1\<rparr>"
  let ?ini = "initialState\<lparr>version := ''0.7''\<rparr>"
  let ?st = "putSession ?ini ''ID'' ?s"
  have h1: "sessions ?st ''ID'' = Some ?s" by simp
  have h2: "[''TOK'', ''localhost''] \<noteq> []" by simp
  have h3: "CHR ''.'' \<in> set (version ?st)" by (simp add: initialState_def)
  have h4: "domains ?cfg \<noteq> []" by (simp add: defaultConfig_def)
  have h5: "length (domains ?cfg) < 2 ^ 63" by (simp add: defaultConfig_def)
  have h6: "500 = (if 0 < sint (slowFactor ?cfg) \<and> 0 < sint (score ?s)
              then sint (slowFactor ?cfg) * sint (score ?s) div int (length (domains ?cfg))
              else 0)"
    by (simp add: defaultConfig_def)
  have h7: "0 < sint (slowFactor ?cfg) \<and> 0 < sint (score ?s)
           \<longrightarrow> sint (slowFactor ?cfg) * sint (score ?s) < 2 ^ 63"
    by simp
  have h8: "(500 :: int) * 1000000 < 2 ^ 63" by simp
  have v: "CHR ''.'' \<in> set (version ?ini)" by simp
  show ?thesis
    using C8_delay [OF h1 h2 h3 h4 h5 h6 h7 h8, of "''connect''"] v
    by (simp add: defaultConfig_def)
qed

text \<open>
  Claim C8 as stated fails where the arithmetic leaves the range of its type; both runs
  are outside test mode, with a resolver that finds the address on every list. With two
  domains and a slow factor of \<open>2 ^ 62\<close> the score is 2 and the claim gives a delay of
  \<open>2 ^ 62\<close> milliseconds; the product wraps around to \<open>- 2 ^ 63\<close>, the delay stored is
  \<open>- 2 ^ 62\<close>, and the goroutine writes its line without a pause. With one domain and
  a slow factor of \<open>9223372036855\<close> the score is 1 and the delay stored is the slow
  factor, as the claim has it; in nanoseconds it is above \<open>2 ^ 63\<close>, the duration wraps
  around to a negative one, and the goroutine writes its line without a pause.
\<close>

theorem C8_counterexample:
  "process ((defaultConfig [''dnsbl.example'', ''bl.example''])\<lparr>slowFactor := 4611686018427387904\<rparr>)
     allHits [NextLine, NextLine, Finish 0]
     [''report|0.7|0|smtp-in|link-connect|ID|localhost|pass|1.2.3.4:33174|1.1.1.1:25'',
      ''filter|0.7|0|smtp-in|connect|ID|TOK|localhost|1.2.3.4'']
     initialState []
   = ([LookupIP ''4.3.2.1.dnsbl.example'', LookupIP ''4.3.2.1.bl.example'',
       Go (WaitThenAction ''ID'' ''TOK'' (- 4611686018427387904) ''proceed''),
       Output ''filter-result|ID|TOK|proceed''], Running)
   \<and> process ((defaultConfig [''dnsbl.example''])\<lparr>slowFactor := 9223372036855\<rparr>)
     allHits [NextLine, NextLine, Finish 0]
     [''report|0.7|0|smtp-in|link-connect|ID|localhost|pass|1.2.3.4:33174|1.1.1.1:25'',
      ''filter|0.7|0|smtp-in|connect|ID|TOK|localhost|1.2.3.4'']
     initialState []
   = ([LookupIP ''4.3.2.1.dnsbl.example'',
       Go (WaitThenAction ''ID'' ''TOK'' 9223372036855 ''proceed''),
       Output ''filter-result|ID|TOK|proceed''], Running)"
  by (simp add: eval_defs slowDelay_def go_div_def to_int_def signed_divide_int_def
        sint_to_int8 wrap8_def)

text \<open>
  Claim C9. The configuration has at least one domain, as \<^verbatim>\<open>main\<close> demands. The two
  handlers that give a verdict compare the score with the thresholds wrapped modulo
  \<open>2 ^ 8\<close> into \<open>-128 .. 127\<close>, whatever \<^verbatim>\<open>int\<close> the thresholds are: \<^verbatim>\<open>delayedAnswer\<close> passes
  \<^verbatim>\<open>disconnect\<close> on exactly when the score is known, the wrapped block threshold is not
  negative and below the score, and the phase is the block phase; \<^verbatim>\<open>filterConnect\<close>
  does so for the phase \<^verbatim>\<open>connect\<close>, and otherwise passes \<^verbatim>\<open>junk\<close> on exactly when the
  score is known and the wrapped junk threshold is not negative and below the score.
  The wrapped value \<open>wrap8 k\<close> lies in \<open>-128 .. 127\<close>, differs from \<open>k\<close> by a multiple of
  256, and is \<open>k\<close> itself for \<open>k\<close> in that range. The start of \<^verbatim>\<open>main\<close> does not look
  at the thresholds: it succeeds or fails as it does for any other thresholds, and it
  leaves them as they are.
\<close>

theorem C9_thresholds_wrap:
  assumes "sessions st sid = Some s" and "domains cfg \<noteq> []"
  shows "delayedAnswer cfg phase sid params st
           = delayed cfg
               (if score s \<noteq> - 1 \<and> 0 \<le> wrap8 (sint (blockAbove cfg))
                   \<and> wrap8 (sint (blockAbove cfg)) < sint (score s) \<and> blockPhase cfg = phase
                then ''disconnect|550 your IP reputation is too low for this MX''
                else ''proceed'')
               sid params st
     \<and> filterConnect cfg phase sid params st
           = delayed cfg
               (if score s \<noteq> - 1 \<and> 0 \<le> wrap8 (sint (blockAbove cfg))
                   \<and> wrap8 (sint (blockAbove cfg)) < sint (score s)
                   \<and> blockPhase cfg = ''connect''
                then ''disconnect|550 your IP reputation is too low for this MX''
                else if score s \<noteq> - 1 \<and> 0 \<le> wrap8 (sint (junkAbove cfg))
                        \<and> wrap8 (sint (junkAbove cfg)) < sint (score s)
                then ''junk'' else ''proceed'')
               sid params (putSession st sid (s\<lparr>delay := slowDelay cfg s\<rparr>))
     \<and> - 128 \<le> wrap8 k \<and> wrap8 k \<le> 127 \<and> (wrap8 k - k) mod 256 = 0
     \<and> (- 128 \<le> k \<and> k \<le> 127 \<longrightarrow> wrap8 k = k)
     \<and> startup entries (cfg\<lparr>blockAbove := b, junkAbove := j\<rparr>)
         = (case startup entries cfg of
              Inl e \<Rightarrow> Inl e
            | Inr c \<Rightarrow> Inr (c\<lparr>blockAbove := b, junkAbove := j\<rparr>))"
proof -
  have np: "\<not> (0 < sint (slowFactor cfg) \<and> 0 < sint (score s) \<and> domains cfg = [])"
    using assms(2) by simp
  have a: "delayedAnswer cfg phase sid params st
           = delayed cfg
               (if score s \<noteq> - 1 \<and> 0 \<le> wrap8 (sint (blockAbove cfg))
                   \<and> wrap8 (sint (blockAbove cfg)) < sint (score s) \<and> blockPhase cfg = phase
                then ''disconnect|550 your IP reputation is too low for this MX''
                else ''proceed'')
               sid params st"
    unfolding delayedAnswer_verdict [OF assms(1)] blocks_wrap8 ..
  have f: "filterConnect cfg phase sid params st
           = delayed cfg
               (if score s \<noteq> - 1 \<and> 0 \<le> wrap8 (sint (blockAbove cfg))
                   \<and> wrap8 (sint (blockAbove cfg)) < sint (score s)
                   \<and> blockPhase cfg = ''connect''
                then ''disconnect|550 your IP reputation is too low for this MX''
                else if score s \<noteq> - 1 \<and> 0 \<le> wrap8 (sint (junkAbove cfg))
                        \<and> wrap8 (sint (junkAbove cfg)) < sint (score s)
                then ''junk'' else ''proceed'')
               sid params (putSession st sid (s\<lparr>delay := slowDelay cfg s\<rparr>))"
    unfolding filterConnect_verdict [OF assms(1) np] blocks_wrap8 junks_wrap8 ..
  have r: "- 128 \<le> wrap8 k \<and> wrap8 k \<le> 127"
    using wrap8_range [of k] by simp
  have w: "(wrap8 k - k) mod 256 = 0"
    by (rule wrap8_congruent)
  have i: "- 128 \<le> k \<and> k \<le> 127 \<longrightarrow> wrap8 k = k"
    by (simp add: wrap8_id)
  have u: "startup entries (cfg\<lparr>blockAbove := b, junkAbove := j\<rparr>)
         = (case startup entries cfg of
              Inl e \<Rightarrow> Inl e
            | Inr c \<Rightarrow> Inr (c\<lparr>blockAbove := b, junkAbove := j\<rparr>))"
    by (rule startup_thresholds)
  show ?thesis
    by (intro conjI a f w i u) (simp_all add: r)
qed

theorem C9_thresholds_wrap_witness:
  "delayedAnswer ((defaultConfig [''dnsbl.example''])\<lparr>blockAbove := 256, blockPhase := ''helo''\<rparr>)
       ''helo'' ''ID'' [''TOK'', ''mail.example'']
       (putSession (initialState\<lparr>version := ''0.7''\<rparr>) ''ID'' (newSession\<lparr>score := 1\<rparr>))
     = Inr (putSession (initialState\<lparr>version := ''0.7''\<rparr>) ''ID'' (newSession\<lparr>score := 1\<rparr>),
            [Go (WaitThenAction ''ID'' ''TOK'' 0
                   ''disconnect|550 your IP reputation is too low for this MX'')])
   \<and> delayedAnswer ((defaultConfig [''dnsbl.example''])\<lparr>blockAbove := 128, blockPhase := ''helo''\<rparr>)
       ''helo'' ''ID'' [''TOK'', ''mail.example'']
       (putSession (initialState\<lparr>version := ''0.7''\<rparr>) ''ID'' (newSession\<lparr>score := 1\<rparr>))
     = Inr (putSession (initialState\<lparr>version := ''0.7''\<rparr>) ''ID'' (newSession\<lparr>score := 1\<rparr>),
            [Go (WaitThenAction ''ID'' ''TOK'' 0 ''proceed'')])
   \<and> startup [] ((defaultConfig [''dnsbl.example''])\<lparr>blockAbove := 256, junkAbove := 128\<rparr>)
     = Inr ((defaultConfig [''dnsbl.example''])\<lparr>blockAbove := 256, junkAbove := 128\<rparr>)"
proof -
  let ?cfg = "(defaultConfig [''dnsbl.example''])\<lparr>blockAbove := 256, blockPhase := ''helo''\<rparr>"
  let ?cfg' = "(defaultConfig [''dnsbl.example''])\<lparr>blockAbove := 128, blockPhase := ''helo''\<rparr>"
  let ?s = "newSession\<lparr>score := 1\<rparr>"
  let ?st = "putSession (initialState\<lparr>version := ''0.7''\<rparr>) ''ID'' ?s"
  let ?ps = "[''TOK'', ''mail.example'']"
  have h1: "sessions ?st ''ID'' = Some ?s" by simp
  have h2: "domains ?cfg \<noteq> []" "domains ?cfg' \<noteq> []" "domains (defaultConfig [''dnsbl.example'']) \<noteq> []"
    by (simp_all add: defaultConfig_def)
  have w: "wrap8 (sint (blockAbove ?cfg)) = 0" "wrap8 (sint (blockAbove ?cfg')) = - 128"
    by (simp_all add: wrap8_def)
  have d: "delayed ?cfg ''disconnect|550 your IP reputation is too low for this MX'' ''ID'' ?ps ?st
             = Inr (?st, [Go (WaitThenAction ''ID'' ''TOK'' 0
                            ''disconnect|550 your IP reputation is too low for this MX'')])"
    "delayed ?cfg' ''proceed'' ''ID'' ?ps ?st
             = Inr (?st, [Go (WaitThenAction ''ID'' ''TOK'' 0 ''proceed'')])"
    by (simp_all add: eval_defs)
  have u: "startup [] (defaultConfig [''dnsbl.example'']) = Inr (defaultConfig [''dnsbl.example''])"
    by (simp add: startup_def validatePhase_def defaultConfig_def)
  have a1: "delayedAnswer ?cfg ''helo'' ''ID'' ?ps ?st
              = Inr (?st, [Go (WaitThenAction ''ID'' ''TOK'' 0
                             ''disconnect|550 your IP reputation is too low for this MX'')])"
    using C9_thresholds_wrap [OF h1 h2(1), where phase = "''helo''" and params = ?ps,
        THEN conjunct1] w(1) d(1)
    by simp
  have a2: "delayedAnswer ?cfg' ''helo'' ''ID'' ?ps ?st
              = Inr (?st, [Go (WaitThenAction ''ID'' ''TOK'' 0 ''proceed'')])"
    using C9_thresholds_wrap [OF h1 h2(2), where phase = "''helo''" and params = ?ps,
        THEN conjunct1] w(2) d(2)
    by simp
  have a3: "startup [] ((defaultConfig [''dnsbl.example''])\<lparr>blockAbove := 256, junkAbove := 128\<rparr>)
              = Inr ((defaultConfig [''dnsbl.example''])\<lparr>blockAbove := 256, junkAbove := 128\<rparr>)"
    using C9_thresholds_wrap [OF h1 h2(3), where entries = "[]" and b = 256 and j = 128] u
    by simp
  show ?thesis by (intro conjI a1 a2 a3)
qed




end
